theory Spec2Isabelle
  imports Main "HOL-Library.Word"
begin

unbundle bit_operations_syntax

chapter \<open>The model of the driver shim\<close>

section \<open>Machine integers of the driver shim\<close>

type_synonym u8 = "8 word"

type_synonym u16 = "16 word"

type_synonym u32 = "32 word"

type_synonym u64 = "64 word"

section \<open>Checksum calculations\<close>

text \<open>
  The summation loop of \<open>calculate_checksum\<close> and \<open>calculate_transport_checksum\<close>:
  \<open>for (i = 0; i + 1 < len; i += 2) sum += ((uint16_t)data[i] << 8) | data[i + 1];\<close>
  followed by \<open>if (i < len) sum += (uint16_t)data[i] << 8;\<close>.
  The accumulator is a \<open>uint32_t\<close>, so every addition wraps modulo \<open>2 ^ 32\<close>.
  The buffer is the list of its \<open>len\<close> bytes.
\<close>

fun sum_words :: "u8 list \<Rightarrow> u32 \<Rightarrow> u32" where
  "sum_words (a # b # rest) s = sum_words rest (s + (push_bit 8 (ucast a) OR ucast b))"
| "sum_words [a] s = s + push_bit 8 (ucast a)"
| "sum_words [] s = s"

text \<open>The folding loop \<open>while (sum >> 16) sum = (sum & 0xFFFF) + (sum >> 16);\<close>.\<close>

function fold_carries :: "u32 \<Rightarrow> u32" where
  "fold_carries s =
     (if drop_bit 16 s \<noteq> 0 then fold_carries ((s AND 0xFFFF) + drop_bit 16 s) else s)"
  by pat_completeness auto

lemma low_half_mask: "(0xFFFF :: u32) = mask 16"
  by (simp add: mask_eq_exp_minus_1)

lemma unat_lo16: "unat (s AND 0xFFFF :: u32) = unat s mod 65536"
  by (simp add: low_half_mask unsigned_take_bit_eq take_bit_eq_mod unat_mod
      flip: take_bit_eq_mask)

lemma unat_hi16: "unat (drop_bit 16 s :: u32) = unat s div 65536"
  by (simp add: unat_drop_bit_eq drop_bit_eq_div unat_div)

lemma unat_lt32: "unat (s :: u32) < 4294967296"
  using unsigned_less [of s, where 'a = nat] by simp

lemma fold_step_le: "n mod 65536 + n div 65536 \<le> (n::nat)"
proof -
  define q r where "q = n div 65536" and "r = n mod 65536"
  have "n = 65536 * q + r" by (simp add: q_def r_def)
  then show ?thesis unfolding q_def [symmetric] r_def [symmetric] by linarith
qed

lemma fold_step_less: "65536 \<le> n \<Longrightarrow> n mod 65536 + n div 65536 < (n::nat)"
proof -
  assume a: "65536 \<le> n"
  define q r where "q = n div 65536" and "r = n mod 65536"
  have n: "n = 65536 * q + r" by (simp add: q_def r_def)
  have "r < 65536" by (simp add: r_def)
  with a n have "0 < q" by linarith
  with n show ?thesis unfolding q_def [symmetric] r_def [symmetric] by linarith
qed

lemma unat_fold_step:
  "unat ((s AND 0xFFFF) + drop_bit 16 s :: u32) = unat s mod 65536 + unat s div 65536"
proof -
  have "unat s mod 65536 + unat s div 65536 < 4294967296"
    using unat_lt32 [of s] fold_step_le [of "unat s"] by linarith
  then show ?thesis
    by (simp add: unat_word_ariths unat_lo16 unat_hi16)
qed

lemma hi16_zero: "(drop_bit 16 (s :: u32) = 0) = (unat s < 65536)"
proof -
  have "(drop_bit 16 s = 0) = (unat (drop_bit 16 s) = 0)"
    by (simp add: unat_eq_0)
  then show ?thesis by (simp add: unat_hi16 div_eq_0_iff)
qed

lemma fold_step_decreases:
  "drop_bit 16 (s :: u32) \<noteq> 0 \<Longrightarrow> unat ((s AND 0xFFFF) + drop_bit 16 s) < unat s"
  unfolding unat_fold_step hi16_zero using fold_step_less [of "unat s"] by simp

termination fold_carries
  by (relation "measure unat") (simp_all add: fold_step_decreases)

declare fold_carries.simps [simp del]

text \<open>
  \<open>calculate_checksum(data, len)\<close>: sum from 0, fold, \<open>return (uint16_t)(~sum)\<close>.
\<close>

definition calculate_checksum :: "u8 list \<Rightarrow> u16" where
  "calculate_checksum data = ucast (NOT (fold_carries (sum_words data 0)))"

text \<open>
  \<open>calculate_transport_checksum(src_ip, dst_ip, protocol, data, len)\<close>: the accumulator
  starts with the two halves of each address, the protocol byte and \<open>len\<close>
  (\<open>sum += len\<close> keeps the low 32 bits of the \<open>size_t\<close>), then runs over the data.
\<close>

definition pseudo_header_sum :: "u32 \<Rightarrow> u32 \<Rightarrow> u8 \<Rightarrow> nat \<Rightarrow> u32" where
  "pseudo_header_sum src_ip dst_ip protocol len =
     (drop_bit 16 src_ip AND 0xFFFF) + (src_ip AND 0xFFFF)
     + (drop_bit 16 dst_ip AND 0xFFFF) + (dst_ip AND 0xFFFF)
     + ucast protocol + of_nat len"

definition calculate_transport_checksum :: "u32 \<Rightarrow> u32 \<Rightarrow> u8 \<Rightarrow> u8 list \<Rightarrow> u16" where
  "calculate_transport_checksum src_ip dst_ip protocol data =
     ucast (NOT (fold_carries
       (sum_words data (pseudo_header_sum src_ip dst_ip protocol (length data)))))"

subsection \<open>Test vectors and the round-trip extension\<close>

text \<open>The IPv4 header of scenario S1 (checksum field zero).\<close>

definition s1_header :: "u8 list" where
  "s1_header = [0x45, 0x00, 0x00, 0x3c, 0x1c, 0x46, 0x40, 0x00, 0x40, 0x06, 0x00, 0x00,
                0xac, 0x10, 0x0a, 0x63, 0xac, 0x10, 0x0a, 0x0c]"

text \<open>
  The 13-byte UDP segment of scenario S2: source port 1234, destination port 5678,
  length 13, the checksum field \<open>ck\<close> (high byte first), payload \<open>48 65 6c 6c 6f\<close>.
\<close>

definition s2_segment :: "u16 \<Rightarrow> u8 list" where
  "s2_segment ck = [0x04, 0xD2, 0x16, 0x2E, 0x00, 0x0D, ucast (drop_bit 8 ck), ucast ck,
                    0x48, 0x65, 0x6c, 0x6c, 0x6f]"

text \<open>
  The round-trip property speaks of a sequence extended with the two bytes of its own
  checksum, high byte first.
\<close>

definition extend_with_checksum :: "u8 list \<Rightarrow> u8 list" where
  "extend_with_checksum s =
     s @ [ucast (drop_bit 8 (calculate_checksum s)), ucast (calculate_checksum s)]"

section \<open>Backend detection and selection\<close>

text \<open>
  \<open>backend_type_t\<close> with the integer values the enumeration gives its members, and
  \<open>system_capabilities_t\<close>. The fields are C \<open>int\<close>s of 32 bits, held as the integers
  they denote; the probe stores 0, 1, parsed numbers and one difference in them, each
  brought into the range of \<open>int\<close>, and the selector tests them for being non-zero.
\<close>

datatype backend_type_t =
    BACKEND_NONE
  | BACKEND_RAW_SOCKET
  | BACKEND_SENDMMSG
  | BACKEND_IO_URING
  | BACKEND_AF_XDP
  | BACKEND_DPDK

fun backend_value :: "backend_type_t \<Rightarrow> nat" where
  "backend_value BACKEND_NONE = 0"
| "backend_value BACKEND_RAW_SOCKET = 1"
| "backend_value BACKEND_SENDMMSG = 2"
| "backend_value BACKEND_IO_URING = 3"
| "backend_value BACKEND_AF_XDP = 4"
| "backend_value BACKEND_DPDK = 5"

record system_capabilities_t =
  has_dpdk :: int
  has_af_xdp :: int
  has_io_uring :: int
  has_sendmmsg :: int
  has_raw_socket :: int
  kernel_version_major :: int
  kernel_version_minor :: int
  cpu_count :: int
  numa_nodes :: int

text \<open>\<open>select_best_backend\<close>: the chain of \<open>if (caps->has_...) return ...;\<close>.\<close>

definition select_best_backend :: "system_capabilities_t \<Rightarrow> backend_type_t" where
  "select_best_backend caps =
     (if has_dpdk caps \<noteq> 0 then BACKEND_DPDK
      else if has_af_xdp caps \<noteq> 0 then BACKEND_AF_XDP
      else if has_io_uring caps \<noteq> 0 then BACKEND_IO_URING
      else if has_sendmmsg caps \<noteq> 0 then BACKEND_SENDMMSG
      else BACKEND_RAW_SOCKET)"

subsection \<open>The selection policy in the words of the specification\<close>

text \<open>
  The specification's \<open>select(caps) = first available in [dpdk, af_xdp, io_uring,
  sendmmsg, raw_socket]\<close>, where a backend is available when its flag is set, and the
  pointwise order on the availability flags.
\<close>

definition selection_order :: "backend_type_t list" where
  "selection_order =
     [BACKEND_DPDK, BACKEND_AF_XDP, BACKEND_IO_URING, BACKEND_SENDMMSG, BACKEND_RAW_SOCKET]"

fun available :: "system_capabilities_t \<Rightarrow> backend_type_t \<Rightarrow> bool" where
  "available caps BACKEND_DPDK = (has_dpdk caps \<noteq> 0)"
| "available caps BACKEND_AF_XDP = (has_af_xdp caps \<noteq> 0)"
| "available caps BACKEND_IO_URING = (has_io_uring caps \<noteq> 0)"
| "available caps BACKEND_SENDMMSG = (has_sendmmsg caps \<noteq> 0)"
| "available caps BACKEND_RAW_SOCKET = (has_raw_socket caps \<noteq> 0)"
| "available caps BACKEND_NONE = False"

definition first_available :: "system_capabilities_t \<Rightarrow> backend_type_t option" where
  "first_available caps = find (available caps) selection_order"

definition caps_le :: "system_capabilities_t \<Rightarrow> system_capabilities_t \<Rightarrow> bool" where
  "caps_le c1 c2 = (\<forall>b \<in> set selection_order. available c1 b \<longrightarrow> available c2 b)"

text \<open>
  The selection priority of a backend is its position from the end of the priority
  order; it coincides with the value of the enumeration member.
\<close>

definition priority :: "backend_type_t \<Rightarrow> nat" where
  "priority b = length (dropWhile (\<lambda>x. x \<noteq> b) selection_order)"

text \<open>
  The two records of scenario S3: only sendmmsg available on a 3.10 kernel, and af_xdp,
  io_uring and sendmmsg available together.
\<close>

definition no_caps :: system_capabilities_t where
  "no_caps = \<lparr>has_dpdk = 0, has_af_xdp = 0, has_io_uring = 0, has_sendmmsg = 0,
     has_raw_socket = 0, kernel_version_major = 0, kernel_version_minor = 0,
     cpu_count = 0, numa_nodes = 0\<rparr>"

definition s3_only_sendmmsg :: system_capabilities_t where
  "s3_only_sendmmsg = no_caps\<lparr>has_sendmmsg := 1, has_raw_socket := 1,
     kernel_version_major := 3, kernel_version_minor := 10\<rparr>"

definition s3_af_xdp :: system_capabilities_t where
  "s3_af_xdp = no_caps\<lparr>has_af_xdp := 1, has_io_uring := 1, has_sendmmsg := 1,
     has_raw_socket := 1\<rparr>"

subsection \<open>The capability probe\<close>

text \<open>
  What \<open>detect_capabilities\<close> reads from outside: the compile-time configuration
  (\<open>__linux__\<close>, \<open>_WIN32\<close>, \<open>HAS_IO_URING\<close>, \<open>HAS_AF_XDP\<close>, \<open>HAS_DPDK\<close>) and the host
  (the processor count reported by the platform, the release string of \<open>uname\<close> or
  \<open>None\<close> when \<open>uname\<close> fails, and the content of
  \<open>/sys/devices/system/node/online\<close> or \<open>None\<close> when \<open>fopen\<close> fails).
\<close>

datatype platform = Windows | Linux | Other_platform

record build_config =
  target :: platform
  HAS_IO_URING :: bool
  HAS_AF_XDP :: bool
  HAS_DPDK :: bool

record host_env =
  online_cpus :: int
  uname_release :: "string option"
  node_online :: "string option"

text \<open>
  The \<open>%d\<close> conversion of \<open>sscanf\<close>: white space is skipped, an optional sign is read,
  then at least one decimal digit. The target is a C \<open>int\<close> of 32 bits. The C library
  converts the digits as \<open>strtol\<close> does, saturating at the range of \<open>long\<close> (64 bits on
  Linux), and stores the result through a conversion to \<open>int\<close>, which keeps the low 32
  bits: \<open>4294967295\<close> is stored as \<open>-1\<close> and \<open>4294967298\<close> as \<open>2\<close>.
  \<open>c_int\<close> is that conversion; it is also the wrap-around of \<open>int\<close> arithmetic.
\<close>

definition c_int :: "int \<Rightarrow> int" where
  "c_int v = sint (word_of_int v :: 32 word)"

definition strtol_saturate :: "int \<Rightarrow> int" where
  "strtol_saturate v = max (- 9223372036854775808) (min 9223372036854775807 v)"

definition stored_int :: "int \<Rightarrow> int" where
  "stored_int v = c_int (strtol_saturate v)"

definition is_space :: "char \<Rightarrow> bool" where
  "is_space c = ((of_char c :: nat) = 32 \<or> (9 \<le> (of_char c :: nat) \<and> (of_char c :: nat) \<le> 13))"

definition is_digit :: "char \<Rightarrow> bool" where
  "is_digit c = (48 \<le> (of_char c :: nat) \<and> (of_char c :: nat) \<le> 57)"

definition digit_val :: "char \<Rightarrow> int" where
  "digit_val c = int (of_char c) - 48"

text \<open>
  \<open>scan_digits\<close> reads the run of digits and accumulates its magnitude as \<open>strtol\<close> does,
  in 64 bits and no further than \<open>2 ^ 63\<close>, the largest magnitude a \<open>long\<close> can take;
  \<open>scan_unsigned\<close> requires at least one digit. \<open>scan_int\<close> applies the sign and stores
  the value as a 32-bit \<open>int\<close>.
\<close>

definition magnitude_limit :: int where
  "magnitude_limit = 9223372036854775808"

fun scan_digits :: "string \<Rightarrow> int \<Rightarrow> int \<times> string" where
  "scan_digits [] acc = (acc, [])"
| "scan_digits (c # cs) acc =
     (if is_digit c
      then scan_digits cs (min magnitude_limit (10 * acc + digit_val c))
      else (acc, c # cs))"

definition scan_unsigned :: "string \<Rightarrow> (int \<times> string) option" where
  "scan_unsigned s =
     (case s of
        [] \<Rightarrow> None
      | c # cs \<Rightarrow> if is_digit c then Some (scan_digits s 0) else None)"

definition scan_int :: "string \<Rightarrow> (int \<times> string) option" where
  "scan_int s =
     (case dropWhile is_space s of
        [] \<Rightarrow> None
      | c # cs \<Rightarrow>
          if c = CHR ''-''
          then map_option (\<lambda>(v, r). (stored_int (- v), r)) (scan_unsigned cs)
          else if c = CHR ''+''
          then map_option (\<lambda>(v, r). (stored_int v, r)) (scan_unsigned cs)
          else map_option (\<lambda>(v, r). (stored_int v, r)) (scan_unsigned (c # cs)))"

text \<open>
  \<open>sscanf(s, "%d<sep>%d", &a, &b)\<close> for a separator character that is neither white space
  nor \<open>%\<close>: the list of the values converted, in order. Its length is what \<open>sscanf\<close>
  returns when at least one conversion succeeds; a variable without a conversion keeps its
  old value.
\<close>

definition sscanf_d_sep_d :: "char \<Rightarrow> string \<Rightarrow> int list" where
  "sscanf_d_sep_d sep s =
     (case scan_int s of
        None \<Rightarrow> []
      | Some (a, r) \<Rightarrow>
          (case r of
             [] \<Rightarrow> [a]
           | c # r' \<Rightarrow>
               if c = sep
               then (case scan_int r' of None \<Rightarrow> [a] | Some (b, _) \<Rightarrow> [a, b])
               else [a]))"

text \<open>
  \<open>fgets(buf, size, f)\<close> on a freshly opened file: \<open>None\<close> (a null pointer) at end of
  file, otherwise at most \<open>size - 1\<close> characters, stopping after the first newline.
\<close>

fun take_line :: "nat \<Rightarrow> string \<Rightarrow> string" where
  "take_line 0 s = []"
| "take_line (Suc n) [] = []"
| "take_line (Suc n) (c # cs) = (if c = CHR 0x0A then [c] else c # take_line n cs)"

definition fgets :: "nat \<Rightarrow> string \<Rightarrow> string option" where
  "fgets n s = (if s = [] then None else Some (take_line (n - 1) s))"

text \<open>
  \<open>get_cpu_count\<close>: the platform's count on Windows and Linux, returned as an \<open>int\<close>,
  and 1 elsewhere.
\<close>

definition get_cpu_count :: "build_config \<Rightarrow> host_env \<Rightarrow> int" where
  "get_cpu_count cfg env =
     (if target cfg = Other_platform then 1 else c_int (online_cpus env))"

text \<open>
  The kernel version block: \<open>uname\<close>, then \<open>sscanf(uts.release, "%d.%d", ...)\<close>, which
  stores 32-bit \<open>int\<close>s in the two fields.
\<close>

definition parse_kernel_version :: "host_env \<Rightarrow> system_capabilities_t \<Rightarrow> system_capabilities_t" where
  "parse_kernel_version env caps =
     (case uname_release env of
        None \<Rightarrow> caps
      | Some release \<Rightarrow>
          (case sscanf_d_sep_d (CHR ''.'') release of
             [] \<Rightarrow> caps
           | [major] \<Rightarrow> caps\<lparr>kernel_version_major := major\<rparr>
           | major # minor # _ \<Rightarrow>
               caps\<lparr>kernel_version_major := major, kernel_version_minor := minor\<rparr>))"

definition set_kernel_features :: "build_config \<Rightarrow> system_capabilities_t \<Rightarrow> system_capabilities_t" where
  "set_kernel_features cfg caps =
     (let c1 = (if kernel_version_major caps \<ge> 3 then caps\<lparr>has_sendmmsg := 1\<rparr> else caps);
          c2 = (if kernel_version_major c1 > 5
                   \<or> (kernel_version_major c1 = 5 \<and> kernel_version_minor c1 \<ge> 1)
                then (if HAS_IO_URING cfg then c1\<lparr>has_io_uring := 1\<rparr> else c1) else c1);
          c3 = (if kernel_version_major c2 > 4
                   \<or> (kernel_version_major c2 = 4 \<and> kernel_version_minor c2 \<ge> 18)
                then (if HAS_AF_XDP cfg then c2\<lparr>has_af_xdp := 1\<rparr> else c2) else c2)
      in c3)"

text \<open>
  The NUMA block: \<open>fopen\<close>, \<open>fgets(buf, 64, f)\<close>, \<open>sscanf(buf, "%d-%d", &start, &end)\<close>.
  \<open>end - start + 1\<close> is \<open>int\<close> arithmetic: each step is taken to wrap around at 32 bits
  (\<open>0-2147483647\<close> gives \<open>-2147483648\<close>).
\<close>

definition detect_numa :: "host_env \<Rightarrow> system_capabilities_t \<Rightarrow> system_capabilities_t" where
  "detect_numa env caps =
     (case node_online env of
        None \<Rightarrow> caps
      | Some content \<Rightarrow>
          (case fgets 64 content of
             None \<Rightarrow> caps
           | Some buf \<Rightarrow>
               (case sscanf_d_sep_d (CHR ''-'') buf of
                  [start, end] \<Rightarrow> caps\<lparr>numa_nodes := c_int (c_int (end - start) + 1)\<rparr>
                | _ \<Rightarrow> caps\<lparr>numa_nodes := 1\<rparr>)))"

text \<open>
  \<open>detect_capabilities\<close>: the return value and the record it fills, starting from the
  record zeroed by \<open>memset\<close>.
\<close>

definition detect_capabilities :: "build_config \<Rightarrow> host_env \<Rightarrow> int \<times> system_capabilities_t" where
  "detect_capabilities cfg env =
     (let c0 = no_caps\<lparr>has_raw_socket := 1, cpu_count := get_cpu_count cfg env\<rparr>;
          c1 = (if target cfg = Linux
                then detect_numa env (set_kernel_features cfg (parse_kernel_version env c0))
                else c0);
          c2 = (if HAS_DPDK cfg then c1\<lparr>has_dpdk := 1\<rparr> else c1)
      in (0, c2))"

subsection \<open>Sample inputs of the probe\<close>

text \<open>The number a string of decimal digits denotes.\<close>

definition digits_value :: "string \<Rightarrow> int" where
  "digits_value ds = foldl (\<lambda>acc c. 10 * acc + digit_val c) 0 ds"

text \<open>
  A Linux build with io_uring compiled in and neither XDP nor DPDK, on a host with a
  5.15 kernel and 8 processors whose NUMA file reads as given.
\<close>

definition linux_build :: build_config where
  "linux_build = \<lparr>target = Linux, HAS_IO_URING = True, HAS_AF_XDP = False, HAS_DPDK = False\<rparr>"

definition sample_host :: "string option \<Rightarrow> host_env" where
  "sample_host f =
     \<lparr>online_cpus = 8, uname_release = Some ''5.15.0-91-generic'', node_online = f\<rparr>"

text \<open>
  The same host with a 2.6.32 kernel, with a release string whose major number does not
  fit 32 bits, and with a failing \<open>uname\<close>.
\<close>

definition old_host :: host_env where
  "old_host = (sample_host None)\<lparr>uname_release := Some ''2.6.32-754.el6.x86_64''\<rparr>"

definition wrapping_host :: host_env where
  "wrapping_host = (sample_host None)\<lparr>uname_release := Some ''4294967298.0''\<rparr>"

definition nameless_host :: host_env where
  "nameless_host = (sample_host None)\<lparr>uname_release := None\<rparr>"

section \<open>Raw socket\<close>

text \<open>
  \<open>memcpy(&dst_ip, data + 16, 4)\<close> reads four bytes of the buffer into a \<open>uint32_t\<close> in
  the byte order of the host, and the kernel reads \<open>sin_addr.s_addr\<close> back as the four
  bytes in memory. Both directions are modelled, for either byte order.
\<close>

datatype endianness = Little_endian | Big_endian

fun load_u32 :: "endianness \<Rightarrow> u8 list \<Rightarrow> u32" where
  "load_u32 Big_endian [b0, b1, b2, b3] =
     push_bit 24 (ucast b0) OR push_bit 16 (ucast b1) OR push_bit 8 (ucast b2) OR ucast b3"
| "load_u32 Little_endian [b0, b1, b2, b3] =
     push_bit 24 (ucast b3) OR push_bit 16 (ucast b2) OR push_bit 8 (ucast b1) OR ucast b0"
| "load_u32 _ _ = 0"

fun store_u32 :: "endianness \<Rightarrow> u32 \<Rightarrow> u8 list" where
  "store_u32 Big_endian w =
     [ucast (drop_bit 24 w), ucast (drop_bit 16 w), ucast (drop_bit 8 w), ucast w]"
| "store_u32 Little_endian w =
     [ucast w, ucast (drop_bit 8 w), ucast (drop_bit 16 w), ucast (drop_bit 24 w)]"

text \<open>
  A read of \<open>n\<close> bytes at offset \<open>off\<close> of a buffer; \<open>None\<close> when the read leaves the
  buffer (undefined behaviour in C).
\<close>

definition read_bytes :: "u8 list \<Rightarrow> nat \<Rightarrow> nat \<Rightarrow> u8 list option" where
  "read_bytes buf off n = (if off + n \<le> length buf then Some (take n (drop off buf)) else None)"

text \<open>
  \<open>struct sockaddr_in\<close> after \<open>memset\<close>, and one call of \<open>sendto\<close> as the kernel sees it.
  The kernel's answer to a call is a parameter, \<open>sendto_ret\<close>; the calls made are logged.
\<close>

record sockaddr_in =
  sin_family :: u16
  sin_port :: u16
  s_addr :: u32

definition AF_INET :: u16 where
  "AF_INET = 2"

record sendto_call =
  call_sockfd :: int
  call_data :: "u8 list"
  call_len :: u32
  call_dest :: sockaddr_in

text \<open>The conversion \<open>(int)sent\<close> of the \<open>ssize_t\<close> that \<open>sendto\<close> returns.\<close>

definition int_of_ssize :: "int \<Rightarrow> int" where
  "int_of_ssize r = sint (word_of_int r :: 32 word)"

definition raw_socket_send ::
  "(sendto_call \<Rightarrow> int) \<Rightarrow> int \<Rightarrow> u32 \<Rightarrow> u8 list \<Rightarrow> u32 \<Rightarrow> sendto_call list
    \<Rightarrow> int \<times> sendto_call list" where
  "raw_socket_send sendto_ret sockfd dst_ip data len log =
     (let dest = \<lparr>sin_family = AF_INET, sin_port = 0, s_addr = dst_ip\<rparr>;
          call = \<lparr>call_sockfd = sockfd, call_data = data, call_len = len, call_dest = dest\<rparr>
      in (int_of_ssize (sendto_ret call), log @ [call]))"

definition raw_socket_send_ip ::
  "endianness \<Rightarrow> (sendto_call \<Rightarrow> int) \<Rightarrow> int \<Rightarrow> u8 list \<Rightarrow> u32 \<Rightarrow> sendto_call list
    \<Rightarrow> (int \<times> sendto_call list) option" where
  "raw_socket_send_ip host sendto_ret sockfd data len log =
     (if len < 20 then Some (- 1, log)
      else (case read_bytes data 16 4 of
              None \<Rightarrow> None
            | Some bs \<Rightarrow> Some (raw_socket_send sendto_ret sockfd (load_u32 host bs) data len log)))"

section \<open>io_uring backend\<close>

text \<open>
  Modelled from the spec: \<open>driver_stats_t\<close> is declared in \<open>driver_shim.h\<close>, which is not
  among the sources; it is the stats block of the specification, with the counters
  \<open>packets_sent\<close>, \<open>packets_received\<close>, \<open>bytes_sent\<close>, \<open>bytes_received\<close> and \<open>errors\<close>, taken
  as unsigned 64-bit integers.
\<close>

record driver_stats_t =
  packets_sent :: u64
  packets_received :: u64
  bytes_sent :: u64
  bytes_received :: u64
  errors :: u64

text \<open>
  One packet of a batch (\<open>packets[i]\<close> with \<open>lengths[i]\<close>, and \<open>dests[i]\<close>), a submission
  queue entry prepared by \<open>io_uring_prep_sendmsg\<close>, and a completion queue entry.
\<close>

record packet =
  pkt_data :: "u8 list"
  pkt_len :: u32
  pkt_dest :: sockaddr_in

record sqe =
  sqe_fd :: int
  sqe_packet :: packet
  sqe_user_data :: u64

record cqe =
  cqe_user_data :: u64
  cqe_res :: int

text \<open>
  The static variables of the backend and the ring of liburing as the functions see it:
  the capacity of the submission queue, the entries handed out by \<open>io_uring_get_sqe\<close> and
  not yet submitted, and the completions posted by the kernel and not yet marked seen.
\<close>

record io_uring_state =
  io_uring_initialized :: bool
  io_uring_sockfd :: int
  sq_entries :: nat
  sq :: "sqe list"
  cq :: "cqe list"
  io_uring_stats :: driver_stats_t

text \<open>
  What one call meets outside the program: whether \<open>calloc\<close> succeeds, the error number
  of \<open>io_uring_submit\<close> (0 for success), the result the kernel gives each submitted
  \<open>sendmsg\<close> (bytes sent, or a negative error number), and the error number of the
  \<open>j\<close>-th \<open>io_uring_wait_cqe\<close> of the call (0 for success). The kernel is taken to post
  the completions in submission order by the time they are waited for.
\<close>

record io_uring_env =
  calloc_ok :: bool
  submit_errno :: nat
  sendmsg_res :: "sqe \<Rightarrow> int"
  wait_errno :: "nat \<Rightarrow> nat"

text \<open>
  The preparation loop: \<open>io_uring_get_sqe\<close> returns a null pointer when the submission
  queue is full, and the loop breaks.
\<close>

fun prepare_sqes :: "int \<Rightarrow> nat \<Rightarrow> nat \<Rightarrow> packet list \<Rightarrow> sqe list \<Rightarrow> sqe list" where
  "prepare_sqes fd cap i [] q = q"
| "prepare_sqes fd cap i (p # ps) q =
     (if cap \<le> length q then q
      else prepare_sqes fd cap (Suc i) ps
             (q @ [\<lparr>sqe_fd = fd, sqe_packet = p, sqe_user_data = of_nat i\<rparr>]))"

text \<open>
  \<open>io_uring_submit\<close>: on success every pending entry goes to the kernel, which posts one
  completion for each; the return value is their number. On failure the return value
  is negative and the entries stay pending.
\<close>

definition complete :: "io_uring_env \<Rightarrow> sqe \<Rightarrow> cqe" where
  "complete env e = \<lparr>cqe_user_data = sqe_user_data e, cqe_res = sendmsg_res env e\<rparr>"

definition io_uring_submit :: "io_uring_env \<Rightarrow> io_uring_state \<Rightarrow> int \<times> io_uring_state" where
  "io_uring_submit env s =
     (if submit_errno env = 0
      then (int (length (sq s)), s\<lparr>sq := [], cq := cq s @ map (complete env) (sq s)\<rparr>)
      else (- int (submit_errno env), s))"

text \<open>The body of the completion loop for one completion.\<close>

definition account :: "cqe \<Rightarrow> driver_stats_t \<Rightarrow> driver_stats_t" where
  "account c st =
     (if cqe_res c \<ge> 0
      then st\<lparr>packets_sent := packets_sent st + 1,
              bytes_sent := bytes_sent st + word_of_int (cqe_res c)\<rparr>
      else st\<lparr>errors := errors st + 1\<rparr>)"

text \<open>
  The completion loop \<open>for (j = 0; j < submitted; j++)\<close>, with \<open>n\<close> iterations left:
  a failing \<open>io_uring_wait_cqe\<close> breaks out of it. With nothing posted and nothing in
  flight \<open>io_uring_wait_cqe\<close> would never return: that is \<open>None\<close>.
\<close>

fun drain ::
  "(nat \<Rightarrow> nat) \<Rightarrow> nat \<Rightarrow> nat \<Rightarrow> cqe list \<Rightarrow> driver_stats_t \<Rightarrow> int
    \<Rightarrow> (cqe list \<times> driver_stats_t \<times> int) option" where
  "drain w j 0 q st completed = Some (q, st, completed)"
| "drain w j (Suc n) q st completed =
     (if w j \<noteq> 0 then Some (q, st, completed)
      else (case q of
              [] \<Rightarrow> None
            | c # q' \<Rightarrow>
                drain w (Suc j) n q' (account c st)
                  (if cqe_res c \<ge> 0 then completed + 1 else completed)))"

definition io_uring_send_batch ::
  "io_uring_env \<Rightarrow> io_uring_state \<Rightarrow> packet list \<Rightarrow> (int \<times> io_uring_state) option" where
  "io_uring_send_batch env s packets =
     (if \<not> io_uring_initialized s then Some (- 1, s)
      else if \<not> calloc_ok env then Some (- 1, s)
      else
        let s1 = s\<lparr>sq := prepare_sqes (io_uring_sockfd s) (sq_entries s) 0 packets (sq s)\<rparr>;
            (submitted, s2) = io_uring_submit env s1
        in (case drain (wait_errno env) 0 (nat submitted) (cq s2) (io_uring_stats s2) 0 of
              None \<Rightarrow> None
            | Some (q, st, completed) \<Rightarrow>
                Some (completed, s2\<lparr>cq := q, io_uring_stats := st\<rparr>)))"

subsection \<open>Accounting of a batch\<close>

text \<open>
  The completions with a result of at least 0 and those with a negative result, the
  number of completions the loop takes before a wait fails, and the entries a call
  prepares from an empty submission queue.
\<close>

definition succeeded :: "cqe list \<Rightarrow> cqe list" where
  "succeeded cs = filter (\<lambda>c. cqe_res c \<ge> 0) cs"

definition failed :: "cqe list \<Rightarrow> cqe list" where
  "failed cs = filter (\<lambda>c. cqe_res c < 0) cs"

fun consumed :: "(nat \<Rightarrow> nat) \<Rightarrow> nat \<Rightarrow> nat \<Rightarrow> nat" where
  "consumed w j 0 = 0"
| "consumed w j (Suc n) = (if w j \<noteq> 0 then 0 else Suc (consumed w (Suc j) n))"

definition batch_sqes :: "int \<Rightarrow> nat \<Rightarrow> packet list \<Rightarrow> sqe list" where
  "batch_sqes fd cap packets =
     map (\<lambda>(i, p). \<lparr>sqe_fd = fd, sqe_packet = p, sqe_user_data = of_nat i\<rparr>)
       (enumerate 0 (take cap packets))"

text \<open>
  Sample inputs: an initialized backend with the default depth of 256 and nothing
  pending, a five-byte datagram, a kernel whose first wait is interrupted (\<open>EINTR\<close>, 4),
  and a kernel that refuses the second packet of a batch (\<open>-EAGAIN\<close>, -11).
\<close>

definition ready_state :: io_uring_state where
  "ready_state = \<lparr>io_uring_initialized = True, io_uring_sockfd = 3, sq_entries = 256,
     sq = [], cq = [],
     io_uring_stats = \<lparr>packets_sent = 0, packets_received = 0, bytes_sent = 0,
       bytes_received = 0, errors = 0\<rparr>\<rparr>"

definition hello_packet :: packet where
  "hello_packet = \<lparr>pkt_data = [0x48, 0x65, 0x6c, 0x6c, 0x6f], pkt_len = 5,
     pkt_dest = \<lparr>sin_family = AF_INET, sin_port = 0x2E16, s_addr = 0x0201A8C0\<rparr>\<rparr>"

definition interrupted_env :: io_uring_env where
  "interrupted_env = \<lparr>calloc_ok = True, submit_errno = 0,
     sendmsg_res = (\<lambda>e. int (unat (pkt_len (sqe_packet e)))), wait_errno = (\<lambda>j. 4)\<rparr>"

definition quiet_env :: io_uring_env where
  "quiet_env = \<lparr>calloc_ok = True, submit_errno = 0,
     sendmsg_res = (\<lambda>e. if sqe_user_data e = 1 then - 11 else int (unat (pkt_len (sqe_packet e)))),
     wait_errno = (\<lambda>j. 0)\<rparr>"

section \<open>AF_XDP backend\<close>

text \<open>
  \<open>NUM_FRAMES\<close> is defined by the shim; \<open>FRAME_SIZE\<close> is \<open>XSK_UMEM__DEFAULT_FRAME_SIZE\<close>, which
  the header \<open>xsk.h\<close> of libbpf defines as \<open>1 << 12\<close>. The products \<open>i * FRAME_SIZE\<close> and
  \<open>(idx + i) * FRAME_SIZE\<close> have a \<open>uint32_t\<close> factor, so they are computed in 32 bits and
  then widened to the 64-bit address field.
\<close>

definition NUM_FRAMES :: nat where
  "NUM_FRAMES = 4096"

definition FRAME_SIZE :: u32 where
  "FRAME_SIZE = 4096"

definition umem_size :: nat where
  "umem_size = NUM_FRAMES * unat FRAME_SIZE"

record xdp_desc =
  desc_addr :: u64
  desc_len :: u32
  desc_options :: u32

text \<open>
  A producer ring as libbpf keeps it (\<open>struct xsk_ring_prod\<close>): the cached indices of the
  user side and the shared producer and consumer indices; the kernel advances the
  consumer. All rings of the shim have \<open>NUM_FRAMES\<close> slots, and a ring index selects the
  slot \<open>idx & mask\<close>. The functions below follow the inline functions of \<open>xsk.h\<close>, which is
  a library header and not part of the shim.
\<close>

record xsk_ring_prod =
  cached_prod :: u32
  cached_cons :: u32
  producer :: u32
  consumer :: u32

definition fresh_ring :: xsk_ring_prod where
  "fresh_ring = \<lparr>cached_prod = 0, cached_cons = of_nat NUM_FRAMES, producer = 0, consumer = 0\<rparr>"

definition slot_index :: "u32 \<Rightarrow> nat" where
  "slot_index idx = unat (idx AND (of_nat NUM_FRAMES - 1))"

definition xsk_prod_nb_free :: "xsk_ring_prod \<Rightarrow> u32 \<Rightarrow> u32 \<times> xsk_ring_prod" where
  "xsk_prod_nb_free r nb =
     (let free_entries = cached_cons r - cached_prod r
      in if free_entries \<ge> nb then (free_entries, r)
         else (let r' = r\<lparr>cached_cons := consumer r + of_nat NUM_FRAMES\<rparr>
               in (cached_cons r' - cached_prod r', r')))"

text \<open>
  \<open>xsk_ring_prod__reserve(prod, nb, &idx)\<close>: all of \<open>nb\<close> slots or none. The index is
  written only on success; \<open>None\<close> stands for the caller's uninitialized variable.
\<close>

definition xsk_ring_prod__reserve ::
  "xsk_ring_prod \<Rightarrow> u32 \<Rightarrow> u32 \<times> u32 option \<times> xsk_ring_prod" where
  "xsk_ring_prod__reserve r nb =
     (let (free_entries, r') = xsk_prod_nb_free r nb
      in if free_entries < nb then (0, None, r')
         else (nb, Some (cached_prod r'), r'\<lparr>cached_prod := cached_prod r' + nb\<rparr>))"

definition xsk_ring_prod__submit :: "xsk_ring_prod \<Rightarrow> u32 \<Rightarrow> xsk_ring_prod" where
  "xsk_ring_prod__submit r nb = r\<lparr>producer := producer r + nb\<rparr>"

text \<open>
  The static variables of the backend that sending and initialization touch: the socket
  (\<open>None\<close> for a null pointer), the bytes of the UMEM area, the tx ring with its
  descriptors and its need-wakeup flag, the fill ring with its addresses, and the number
  of zero-byte \<open>sendto\<close> kicks made so far.
\<close>

record af_xdp_state =
  xsk :: "int option"
  umem_area :: "nat \<Rightarrow> u8"
  tx_ring :: xsk_ring_prod
  tx_descs :: "nat \<Rightarrow> xdp_desc"
  tx_needs_wakeup :: bool
  fq :: xsk_ring_prod
  fq_addrs :: "nat \<Rightarrow> u64"
  kicks :: nat

text \<open>
  What the code does not define: a \<open>memcpy\<close> that leaves the UMEM area, and the use of
  an index that \<open>xsk_ring_prod__reserve\<close> did not write.
\<close>

datatype fault = Umem_overflow | Uninitialized_index

definition memcpy_umem :: "(nat \<Rightarrow> u8) \<Rightarrow> nat \<Rightarrow> u8 list \<Rightarrow> (nat \<Rightarrow> u8)" where
  "memcpy_umem m off bs = (\<lambda>a. if off \<le> a \<and> a < off + length bs then bs ! (a - off) else m a)"

text \<open>
  What \<open>init_af_xdp\<close> meets outside the program: the interface index, whether the
  allocation succeeds, the return values of \<open>xsk_umem__create\<close> and \<open>xsk_socket__create\<close>,
  and the descriptor of the socket.
\<close>

record xdp_env =
  ifindex :: nat
  alloc_ok :: bool
  umem_create_ret :: int
  socket_create_ret :: int
  socket_fd :: int

text \<open>The loop that populates the fill ring, with \<open>n\<close> iterations left.\<close>

fun fill_frames :: "nat \<Rightarrow> nat \<Rightarrow> u32 \<Rightarrow> (nat \<Rightarrow> u64) \<Rightarrow> (nat \<Rightarrow> u64)" where
  "fill_frames 0 i idx slots = slots"
| "fill_frames (Suc n) i idx slots =
     fill_frames n (Suc i) (idx + 1)
       (slots(slot_index idx := ucast (of_nat i * FRAME_SIZE)))"

definition init_af_xdp :: "xdp_env \<Rightarrow> af_xdp_state \<Rightarrow> fault + (int \<times> af_xdp_state)" where
  "init_af_xdp env s =
     (if ifindex env = 0 then Inr (- 1, s)
      else if \<not> alloc_ok env then Inr (- 1, s)
      else if umem_create_ret env \<noteq> 0 then Inr (umem_create_ret env, s)
      else if socket_create_ret env \<noteq> 0 then Inr (socket_create_ret env, s\<lparr>fq := fresh_ring\<rparr>)
      else
        let s1 = s\<lparr>xsk := Some (socket_fd env), fq := fresh_ring, tx_ring := fresh_ring\<rparr>;
            (ret, idx, fq1) = xsk_ring_prod__reserve (fq s1) (of_nat NUM_FRAMES)
        in (case idx of
              None \<Rightarrow> Inl Uninitialized_index
            | Some i \<Rightarrow>
                Inr (socket_fd env,
                     s1\<lparr>fq := xsk_ring_prod__submit fq1 (of_nat NUM_FRAMES),
                        fq_addrs := fill_frames NUM_FRAMES 0 i (fq_addrs s1)\<rparr>)))"

text \<open>
  The loop of \<open>af_xdp_send_batch\<close> over the reserved slots, at iteration \<open>i\<close> with the
  packets still to be written.
\<close>

definition tx_addr :: "u32 \<Rightarrow> nat \<Rightarrow> u64" where
  "tx_addr idx i = ucast ((idx + of_nat i) * FRAME_SIZE)"

fun write_descs ::
  "u32 \<Rightarrow> nat \<Rightarrow> u8 list list \<Rightarrow> (nat \<Rightarrow> xdp_desc) \<Rightarrow> (nat \<Rightarrow> u8)
    \<Rightarrow> fault + ((nat \<Rightarrow> xdp_desc) \<times> (nat \<Rightarrow> u8))" where
  "write_descs idx i [] descs m = Inr (descs, m)"
| "write_descs idx i (p # ps) descs m =
     (if unat (tx_addr idx i) + length p > umem_size then Inl Umem_overflow
      else write_descs idx (Suc i) ps
             (descs(slot_index (idx + of_nat i) :=
                (descs (slot_index (idx + of_nat i)))
                  \<lparr>desc_addr := tx_addr idx i, desc_len := of_nat (length p)\<rparr>))
             (memcpy_umem m (unat (tx_addr idx i)) p))"

definition kick_tx :: "af_xdp_state \<Rightarrow> af_xdp_state" where
  "kick_tx s = (if tx_needs_wakeup s then s\<lparr>kicks := kicks s + 1\<rparr> else s)"

definition af_xdp_send_batch ::
  "af_xdp_state \<Rightarrow> u8 list list \<Rightarrow> fault + (int \<times> af_xdp_state)" where
  "af_xdp_send_batch s packets =
     (case xsk s of
        None \<Rightarrow> Inr (- 1, s)
      | Some fd \<Rightarrow>
          let (reserved, idx, tx1) = xsk_ring_prod__reserve (tx_ring s) (of_nat (length packets))
          in (case idx of
                None \<Rightarrow>
                  Inr (sint reserved,
                       kick_tx (s\<lparr>tx_ring := xsk_ring_prod__submit tx1 reserved\<rparr>))
              | Some i \<Rightarrow>
                  (case write_descs i 0 (take (unat reserved) packets) (tx_descs s) (umem_area s) of
                     Inl f \<Rightarrow> Inl f
                   | Inr (descs, m) \<Rightarrow>
                       Inr (sint reserved,
                            kick_tx (s\<lparr>tx_ring := xsk_ring_prod__submit tx1 reserved,
                                       tx_descs := descs, umem_area := m\<rparr>)))))"

definition af_xdp_send :: "af_xdp_state \<Rightarrow> u8 list \<Rightarrow> fault + (int \<times> af_xdp_state)" where
  "af_xdp_send s data =
     (case xsk s of
        None \<Rightarrow> Inr (- 1, s)
      | Some fd \<Rightarrow>
          let (reserved, idx, tx1) = xsk_ring_prod__reserve (tx_ring s) 1
          in (case idx of
                None \<Rightarrow> Inr (- 1, s\<lparr>tx_ring := tx1\<rparr>)
              | Some i \<Rightarrow>
                  (case write_descs i 0 [data] (tx_descs s) (umem_area s) of
                     Inl f \<Rightarrow> Inl f
                   | Inr (descs, m) \<Rightarrow>
                       Inr (sint (of_nat (length data) :: u32),
                            kick_tx (s\<lparr>tx_ring := xsk_ring_prod__submit tx1 1,
                                       tx_descs := descs, umem_area := m\<rparr>)))))"

subsection \<open>What is posted on a ring\<close>

text \<open>
  The entries a ring holds for the kernel are those between the consumer and the
  producer index.
\<close>

definition posted_slots :: "xsk_ring_prod \<Rightarrow> nat list" where
  "posted_slots r =
     map (\<lambda>k. slot_index (consumer r + of_nat k)) [0..<unat (producer r - consumer r)]"

definition fill_posted :: "af_xdp_state \<Rightarrow> u64 list" where
  "fill_posted s = map (fq_addrs s) (posted_slots (fq s))"

definition tx_posted :: "af_xdp_state \<Rightarrow> u64 list" where
  "tx_posted s = map (\<lambda>k. desc_addr (tx_descs s k)) (posted_slots (tx_ring s))"

text \<open>
  Sample inputs: a state before initialization, an environment in which every step of
  the initialization succeeds, the state it leaves, and that state after a first batch
  of one five-byte frame. A second batch, of two frames, then starts at tx index 1.
\<close>

definition blank_state :: af_xdp_state where
  "blank_state = \<lparr>xsk = None, umem_area = (\<lambda>a. 0), tx_ring = fresh_ring,
     tx_descs = (\<lambda>k. \<lparr>desc_addr = 0, desc_len = 0, desc_options = 0\<rparr>),
     tx_needs_wakeup = True, fq = fresh_ring, fq_addrs = (\<lambda>k. 0), kicks = 0\<rparr>"

definition good_env :: xdp_env where
  "good_env = \<lparr>ifindex = 2, alloc_ok = True, umem_create_ret = 0, socket_create_ret = 0,
     socket_fd = 7\<rparr>"

definition booted :: af_xdp_state where
  "booted = snd (projr (init_af_xdp good_env blank_state))"

definition hello_frame :: "u8 list" where
  "hello_frame = [0x48, 0x65, 0x6c, 0x6c, 0x6f]"

definition sent_one :: af_xdp_state where
  "sent_one = snd (projr (af_xdp_send_batch booted [hello_frame]))"

chapter \<open>Facts and claims\<close>

section \<open>Checksum calculations: facts and claims\<close>

subsection \<open>Arithmetic of the fold\<close>

lemma sum_words_append_pair:
  "even (length s) \<Longrightarrow>
   sum_words (s @ [a, b]) acc = sum_words s acc + (push_bit 8 (ucast a) OR ucast b)"
  by (induction s acc rule: sum_words.induct) simp_all

lemma join_bytes: 
  "push_bit 8 (ucast (ucast (drop_bit 8 c) :: u8)) OR ucast (ucast c :: u8) = (ucast (c :: u16) :: u32)"
  by (rule bit_word_eqI) (auto simp: bit_simps dest: bit_imp_le_length)

lemma unat_not32: "unat (NOT x :: u32) = 4294967295 - unat x"
proof -
  have "NOT x = (-1) - x" by (simp add: not_eq_complement)
  moreover have "unat ((-1) - x) = unat (-1 :: u32) - unat x"
    by (rule unat_sub) simp
  moreover have "unat (-1 :: u32) = 4294967295"
    by (simp add: unsigned_minus_1_eq_mask mask_eq_exp_minus_1)
  ultimately show ?thesis by simp
qed

lemma unat_ucast16: "unat (ucast (w :: u32) :: u16) = unat w mod 65536"
  by (simp add: unsigned_ucast_eq take_bit_eq_mod)

lemma unat_lt16: "unat (s :: u16) < 65536"
  using unsigned_less [of s, where 'a = nat] by simp

lemma unat_ucast32: "unat (ucast (w :: u16) :: u32) = unat w"
  using unat_lt16 [of w] by (simp add: unsigned_ucast_eq take_bit_eq_mod)

lemma unat_fold_carries:
  "unat (fold_carries s) = (if unat s = 0 then 0 else (unat s - 1) mod 65535 + 1)"
proof (induction s rule: fold_carries.induct)
  case (1 s)
  define n where "n = unat s"
  show ?case
  proof (cases "drop_bit 16 s = 0")
    case True
    then have "n < 65536" by (simp add: hi16_zero n_def)
    then have "n = (if n = 0 then 0 else (n - 1) mod 65535 + 1)" by simp
    moreover from True have "fold_carries s = s" by (simp add: fold_carries.simps)
    ultimately show ?thesis unfolding n_def by simp
  next
    case False
    then have big: "65536 \<le> n" by (simp add: hi16_zero n_def)
    define q r where "q = n div 65536" and "r = n mod 65536"
    have n: "n = 65536 * q + r" by (simp add: q_def r_def)
    have r: "r < 65536" by (simp add: r_def)
    from big n r have q: "0 < q" by linarith
    have step: "unat ((s AND 0xFFFF) + drop_bit 16 s) = r + q"
      by (simp add: unat_fold_step n_def q_def r_def)
    from False have "fold_carries s = fold_carries ((s AND 0xFFFF) + drop_bit 16 s)"
      by (subst fold_carries.simps) simp
    then have "unat (fold_carries s) = (r + q - 1) mod 65535 + 1"
      using 1 [OF False] step q by simp
    moreover have "n - 1 = 65535 * q + (r + q - 1)" using n q by linarith
    then have "(n - 1) mod 65535 = (r + q - 1) mod 65535" by simp
    ultimately show ?thesis using big unfolding n_def by simp
  qed
qed

lemma round_trip_sum:
  fixes t :: u32
  defines "c \<equiv> (ucast (NOT (fold_carries t)) :: u16)"
  shows "fold_carries (t + ucast c) = 0xFFFF"
proof -
  define n where "n = unat t"
  define f where "f = unat (fold_carries t)"
  have f: "f = (if n = 0 then 0 else (n - 1) mod 65535 + 1)"
    by (simp add: f_def n_def unat_fold_carries)
  then have f_le: "f \<le> 65535"
  proof -
    have "(n - 1) mod 65535 < 65535" by simp
    with f show ?thesis by (simp split: if_splits)
  qed
  have uc: "unat c = (4294967295 - f) mod 65536"
    by (simp add: c_def unat_ucast16 unat_not32 f_def)
  have e: "4294967295 - f = 65536 * 65535 + (65535 - f)" using f_le by simp
  have "(4294967295 - f) mod 65536 = (65535 - f) mod 65536"
    by (subst e) (rule mod_mult_self4)
  with uc have c: "unat c = 65535 - f" by simp
  have n_lt: "n < 4294967296" by (simp add: n_def unat_lt32)
  show ?thesis
  proof (cases "n = 0")
    case True
    then have "t = 0" by (simp add: n_def unat_eq_0)
    moreover from True f c have "unat c = 65535" by simp
    then have "c = 0xFFFF" by (simp add: word_unat_eq_iff)
    ultimately show ?thesis by (simp add: fold_carries.simps)
  next
    case False
    define q r where "q = (n - 1) div 65535" and "r = (n - 1) mod 65535"
    have n1: "n - 1 = 65535 * q + r" by (simp add: q_def r_def)
    have r: "r < 65535" by (simp add: r_def)
    from False f have fr: "f = r + 1" by (simp add: r_def)
    from n1 n_lt False have "65535 * q + r < 4294967295" by linarith
    then have q: "q \<le> 65536" by linarith
    have sum: "n + unat c = 65535 * q + 65535" using n1 False c fr r by linarith
    with q have "n + unat c < 4294967296" by linarith
    then have u: "unat (t + ucast c) = 65535 * q + 65535"
      using sum by (simp add: unat_word_ariths unat_ucast32 n_def)
    have "(65535 * q + 65535 - 1) mod 65535 = 65534"
    proof -
      have "65535 * q + 65535 - 1 = 65535 * q + 65534" by simp
      moreover have "(65535 * q + 65534) mod 65535 = (65534::nat) mod 65535"
        by (rule mod_mult_self4)
      ultimately show ?thesis by simp
    qed
    then have "unat (fold_carries (t + ucast c)) = 65535"
      by (simp add: unat_fold_carries u)
    then show ?thesis by (simp add: word_unat_eq_iff)
  qed
qed

subsection \<open>Checksum claims\<close>

text \<open>
  C3. \<open>calculate_checksum\<close> applied to the 20-byte header
  \<open>45 00 00 3c 1c 46 40 00 40 06 00 00 ac 10 0a 63 ac 10 0a 0c\<close> returns \<open>0xB1E6\<close>.
\<close>

theorem calculate_checksum_s1: "calculate_checksum s1_header = 0xB1E6"
  by (simp add: s1_header_def calculate_checksum_def fold_carries.simps)

text \<open>
  C2, as the specification states it, fails: for the S2 segment with a zero checksum
  field the function does not return \<open>0x8D79\<close>, neither when the addresses
  192.168.1.1 and 192.168.1.2 are passed as the values \<open>0xC0A80101\<close> and
  \<open>0xC0A80102\<close> (most significant byte first) nor when they are passed as a
  little-endian host loads the network-order bytes (\<open>0x0101A8C0\<close>, \<open>0x0201A8C0\<close>).
\<close>

theorem transport_checksum_s2_counterexample:
  "calculate_transport_checksum 0xC0A80101 0xC0A80102 17 (s2_segment 0) \<noteq> 0x8D79
   \<and> calculate_transport_checksum 0x0101A8C0 0x0201A8C0 17 (s2_segment 0) \<noteq> 0x8D79"
  by (simp add: s2_segment_def calculate_transport_checksum_def pseudo_header_sum_def
      fold_carries.simps)

text \<open>
  C2, amended. For the S2 segment the function returns \<open>0x3DAE\<close> when the addresses are
  the values \<open>0xC0A80101\<close> and \<open>0xC0A80102\<close> (and \<open>0x6C7F\<close> when they are the
  little-endian loads \<open>0x0101A8C0\<close> and \<open>0x0201A8C0\<close>); in both cases recomputing over
  the segment with that checksum filled in yields \<open>0x0000\<close>.
\<close>

theorem transport_checksum_s2:
  "calculate_transport_checksum 0xC0A80101 0xC0A80102 17 (s2_segment 0) = 0x3DAE
   \<and> calculate_transport_checksum 0xC0A80101 0xC0A80102 17 (s2_segment 0x3DAE) = 0
   \<and> calculate_transport_checksum 0x0101A8C0 0x0201A8C0 17 (s2_segment 0) = 0x6C7F
   \<and> calculate_transport_checksum 0x0101A8C0 0x0201A8C0 17 (s2_segment 0x6C7F) = 0"
  by (simp add: s2_segment_def calculate_transport_checksum_def pseudo_header_sum_def
      fold_carries.simps)

text \<open>
  C4, as the specification states it, fails for sequences of odd length: the final byte
  is padded to a word when the checksum is computed, and pairs up with the high byte of
  the appended checksum afterwards. For the one-byte sequence \<open>01\<close> the checksum is
  \<open>0xFEFF\<close> and the checksum of \<open>01 FE FF\<close> is \<open>0xFF00\<close>, neither \<open>0x0000\<close> nor
  \<open>0xFFFF\<close>.
\<close>

theorem checksum_round_trip_counterexample:
  "calculate_checksum (extend_with_checksum [0x01]) \<noteq> 0
   \<and> calculate_checksum (extend_with_checksum [0x01]) \<noteq> 0xFFFF"
  by (simp add: extend_with_checksum_def calculate_checksum_def fold_carries.simps)

text \<open>
  C4, amended. For every byte sequence of even length, extending it with the two bytes
  of its checksum (high byte first) and applying \<open>calculate_checksum\<close> to the extended
  sequence yields \<open>0x0000\<close>. The 32-bit accumulator may wrap on long inputs; the
  property holds all the same.
\<close>

theorem checksum_round_trip_even:
  assumes "even (length s)"
  shows "calculate_checksum (extend_with_checksum s) = 0"
proof -
  let ?c = "calculate_checksum s"
  have "sum_words (extend_with_checksum s) 0 = sum_words s 0 + ucast ?c"
    using assms by (simp add: extend_with_checksum_def sum_words_append_pair join_bytes)
  then have "fold_carries (sum_words (extend_with_checksum s) 0) = 0xFFFF"
    using round_trip_sum [of "sum_words s 0"] by (simp add: calculate_checksum_def)
  then show ?thesis by (simp add: calculate_checksum_def)
qed

theorem checksum_round_trip_even_witness:
  "even (length [0x45, 0x00 :: u8])
   \<and> calculate_checksum (extend_with_checksum [0x45, 0x00]) = 0"
  using checksum_round_trip_even [of "[0x45, 0x00]"] by simp

section \<open>Backend detection and selection: facts and claims\<close>

subsection \<open>Claims about the selector\<close>

lemma priority_eq_backend_value: "priority b = backend_value b"
  by (cases b) (simp_all add: priority_def selection_order_def)

text \<open>
  C5. For every capability record (whose raw-socket flag is set, as the data model has
  it), \<open>select_best_backend\<close> returns the first available backend in the priority order;
  whatever the raw-socket flag, the result is the first available backend when there is
  one. A record with \<open>has_sendmmsg = 1\<close> and all higher flags 0 gives sendmmsg, and a
  record with \<open>has_af_xdp = has_io_uring = has_sendmmsg = 1\<close> (and no DPDK) gives af_xdp.
\<close>

theorem select_best_backend_first_available:
  "(has_raw_socket caps \<noteq> 0 \<longrightarrow> first_available caps = Some (select_best_backend caps))
   \<and> (\<forall>b. first_available caps = Some b \<longrightarrow> select_best_backend caps = b)
   \<and> (has_sendmmsg caps = 1 \<and> has_io_uring caps = 0 \<and> has_af_xdp caps = 0 \<and> has_dpdk caps = 0
        \<longrightarrow> select_best_backend caps = BACKEND_SENDMMSG)
   \<and> (has_af_xdp caps = 1 \<and> has_io_uring caps = 1 \<and> has_sendmmsg caps = 1 \<and> has_dpdk caps = 0
        \<longrightarrow> select_best_backend caps = BACKEND_AF_XDP)"
  by (simp add: first_available_def selection_order_def select_best_backend_def)

theorem select_best_backend_first_available_witness:
  "has_raw_socket s3_only_sendmmsg \<noteq> 0
   \<and> first_available s3_only_sendmmsg = Some BACKEND_SENDMMSG
   \<and> has_sendmmsg s3_only_sendmmsg = 1 \<and> has_io_uring s3_only_sendmmsg = 0
   \<and> has_af_xdp s3_only_sendmmsg = 0 \<and> has_dpdk s3_only_sendmmsg = 0
   \<and> select_best_backend s3_only_sendmmsg = BACKEND_SENDMMSG
   \<and> has_af_xdp s3_af_xdp = 1 \<and> has_io_uring s3_af_xdp = 1 \<and> has_sendmmsg s3_af_xdp = 1
   \<and> has_dpdk s3_af_xdp = 0
   \<and> first_available s3_af_xdp = Some BACKEND_AF_XDP
   \<and> select_best_backend s3_af_xdp = BACKEND_AF_XDP"
  using select_best_backend_first_available [of s3_only_sendmmsg]
    select_best_backend_first_available [of s3_af_xdp]
  by (simp add: s3_only_sendmmsg_def s3_af_xdp_def no_caps_def)

text \<open>
  C6. The selector is monotone: when every availability flag set in \<open>c1\<close> is set in
  \<open>c2\<close>, the backend chosen for \<open>c1\<close> has priority at most that of the backend chosen
  for \<open>c2\<close>.
\<close>

theorem select_best_backend_monotone:
  assumes "caps_le c1 c2"
  shows "priority (select_best_backend c1) \<le> priority (select_best_backend c2)"
  using assms
  by (simp add: caps_le_def selection_order_def select_best_backend_def
      priority_eq_backend_value)

theorem select_best_backend_monotone_witness:
  "caps_le s3_only_sendmmsg s3_af_xdp
   \<and> priority (select_best_backend s3_only_sendmmsg) = 2
   \<and> priority (select_best_backend s3_af_xdp) = 4
   \<and> priority (select_best_backend s3_only_sendmmsg)
       \<le> priority (select_best_backend s3_af_xdp)"
proof -
  have le: "caps_le s3_only_sendmmsg s3_af_xdp"
    by (simp add: caps_le_def selection_order_def s3_only_sendmmsg_def s3_af_xdp_def
        no_caps_def)
  show ?thesis
    using le select_best_backend_monotone [OF le]
    by (simp add: select_best_backend_def s3_only_sendmmsg_def s3_af_xdp_def no_caps_def
        priority_eq_backend_value)
qed

subsection \<open>Facts about the probe\<close>

lemmas probe_defs =
  detect_capabilities_def detect_numa_def set_kernel_features_def parse_kernel_version_def
  sscanf_d_sep_d_def scan_int_def scan_unsigned_def fgets_def is_space_def is_digit_def
  digit_val_def no_caps_def get_cpu_count_def Let_def stored_int_def strtol_saturate_def
  c_int_def magnitude_limit_def

lemma detect_numa_keeps:
  "has_sendmmsg (detect_numa env c) = has_sendmmsg c"
  "has_io_uring (detect_numa env c) = has_io_uring c"
  "has_af_xdp (detect_numa env c) = has_af_xdp c"
  "kernel_version_major (detect_numa env c) = kernel_version_major c"
  "kernel_version_minor (detect_numa env c) = kernel_version_minor c"
  by (simp_all add: detect_numa_def split: option.splits list.splits)

lemma parse_kernel_version_keeps:
  "has_sendmmsg (parse_kernel_version env c) = has_sendmmsg c"
  "has_io_uring (parse_kernel_version env c) = has_io_uring c"
  "has_af_xdp (parse_kernel_version env c) = has_af_xdp c"
  "numa_nodes (parse_kernel_version env c) = numa_nodes c"
  by (simp_all add: parse_kernel_version_def split: option.splits list.splits)

lemma set_kernel_features_fields:
  "kernel_version_major (set_kernel_features cfg c) = kernel_version_major c"
  "kernel_version_minor (set_kernel_features cfg c) = kernel_version_minor c"
  "numa_nodes (set_kernel_features cfg c) = numa_nodes c"
  "has_sendmmsg (set_kernel_features cfg c) =
     (if kernel_version_major c \<ge> 3 then 1 else has_sendmmsg c)"
  "has_io_uring (set_kernel_features cfg c) =
     (if (kernel_version_major c > 5 \<or> (kernel_version_major c = 5 \<and> kernel_version_minor c \<ge> 1))
         \<and> HAS_IO_URING cfg then 1 else has_io_uring c)"
  "has_af_xdp (set_kernel_features cfg c) =
     (if (kernel_version_major c > 4 \<or> (kernel_version_major c = 4 \<and> kernel_version_minor c \<ge> 18))
         \<and> HAS_AF_XDP cfg then 1 else has_af_xdp c)"
  by (auto simp: set_kernel_features_def Let_def)

lemma c_int_id: "- 2147483648 \<le> v \<Longrightarrow> v < 2147483648 \<Longrightarrow> c_int v = v"
  by (simp add: c_int_def sint_sbintrunc' signed_take_bit_int_eq_self)

lemma stored_int_id: "- 2147483648 \<le> v \<Longrightarrow> v < 2147483648 \<Longrightarrow> stored_int v = v"
  by (simp add: stored_int_def strtol_saturate_def c_int_id)

lemma foldl_digits_nonneg:
  "list_all is_digit ds \<Longrightarrow> 0 \<le> acc \<Longrightarrow> 0 \<le> foldl (\<lambda>a c. 10 * a + digit_val c) acc ds"
proof (induction ds arbitrary: acc)
  case Nil
  then show ?case by simp
next
  case (Cons d ds)
  then have "0 \<le> 10 * acc + digit_val d" by (simp add: is_digit_def digit_val_def)
  with Cons show ?case by simp
qed

lemma digits_value_nonneg: "list_all is_digit ds \<Longrightarrow> 0 \<le> digits_value ds"
  by (simp add: digits_value_def foldl_digits_nonneg)

lemma stored_digits:
  "list_all is_digit ds \<Longrightarrow> digits_value ds < 2147483648 \<Longrightarrow>
   stored_int (digits_value ds) = digits_value ds"
  using digits_value_nonneg [of ds] by (intro stored_int_id) simp_all

lemma foldl_digits_ge:
  "list_all is_digit ds \<Longrightarrow> 0 \<le> acc \<Longrightarrow> acc \<le> foldl (\<lambda>a c. 10 * a + digit_val c) acc ds"
proof (induction ds arbitrary: acc)
  case Nil
  then show ?case by simp
next
  case (Cons d ds)
  then have d: "0 \<le> digit_val d" by (simp add: is_digit_def digit_val_def)
  with Cons.prems have "0 \<le> 10 * acc + digit_val d" by simp
  with Cons have "10 * acc + digit_val d \<le> foldl (\<lambda>a c. 10 * a + digit_val c) acc (d # ds)"
    by simp
  with d Cons.prems(2) show ?case by linarith
qed

lemma foldl_digits_saturated:
  assumes "list_all is_digit ds" and "0 \<le> acc"
  shows "min magnitude_limit (foldl (\<lambda>a c. 10 * a + digit_val c) (min magnitude_limit acc) ds)
     = min magnitude_limit (foldl (\<lambda>a c. 10 * a + digit_val c) acc ds)"
proof (cases "acc \<le> magnitude_limit")
  case True
  then show ?thesis by (simp add: min_def)
next
  case False
  have lim: "0 \<le> magnitude_limit" by (simp add: magnitude_limit_def)
  from False have m: "min magnitude_limit acc = magnitude_limit" by simp
  have "magnitude_limit \<le> foldl (\<lambda>a c. 10 * a + digit_val c) magnitude_limit ds"
    using assms(1) lim by (rule foldl_digits_ge)
  moreover have "acc \<le> foldl (\<lambda>a c. 10 * a + digit_val c) acc ds"
    using assms by (rule foldl_digits_ge)
  ultimately show ?thesis using False m by simp
qed

lemma scan_digits_append:
  assumes "list_all is_digit ds" and "rest = [] \<or> \<not> is_digit (hd rest)"
    and "0 \<le> acc" and "acc \<le> magnitude_limit"
  shows "scan_digits (ds @ rest) acc
     = (min magnitude_limit (foldl (\<lambda>a c. 10 * a + digit_val c) acc ds), rest)"
  using assms
proof (induction ds arbitrary: acc)
  case Nil
  then show ?case by (cases rest) simp_all
next
  case (Cons d ds)
  let ?next = "10 * acc + digit_val d"
  from Cons.prems have d: "is_digit d" and ds: "list_all is_digit ds" by simp_all
  from d have "0 \<le> digit_val d" by (simp add: is_digit_def digit_val_def)
  with Cons.prems(3) have n0: "0 \<le> ?next" by simp
  have lim: "0 \<le> magnitude_limit" by (simp add: magnitude_limit_def)
  from n0 lim have m0: "0 \<le> min magnitude_limit ?next" by simp
  have "scan_digits ((d # ds) @ rest) acc = scan_digits (ds @ rest) (min magnitude_limit ?next)"
    using d by simp
  also have "\<dots> = (min magnitude_limit
      (foldl (\<lambda>a c. 10 * a + digit_val c) (min magnitude_limit ?next) ds), rest)"
    using ds Cons.prems(2) m0 by (intro Cons.IH) simp_all
  also have "\<dots> = (min magnitude_limit (foldl (\<lambda>a c. 10 * a + digit_val c) ?next ds), rest)"
    using foldl_digits_saturated [OF ds n0] by simp
  finally show ?case by simp
qed

lemma stored_int_saturated:
  "0 \<le> v \<Longrightarrow> stored_int (min magnitude_limit v) = stored_int v"
  by (simp add: stored_int_def strtol_saturate_def magnitude_limit_def min_def max_def)

lemma digit_not_space: "is_digit c \<Longrightarrow> \<not> is_space c"
  by (simp add: is_digit_def is_space_def)

lemma scan_int_digits:
  assumes "ds \<noteq> []" and "list_all is_digit ds" and "rest = [] \<or> \<not> is_digit (hd rest)"
  shows "scan_int (ds @ rest) = Some (stored_int (digits_value ds), rest)"
proof -
  from assms(1) obtain d ds' where ds: "ds = d # ds'" by (cases ds) auto
  with assms(2) have d: "is_digit d" by simp
  then have sign: "d \<noteq> CHR ''-''" "d \<noteq> CHR ''+''" by (auto simp: is_digit_def)
  have skip: "dropWhile is_space (ds @ rest) = ds @ rest"
    using d ds by (simp add: digit_not_space)
  have "scan_digits (ds @ rest) 0 = (min magnitude_limit (digits_value ds), rest)"
    unfolding digits_value_def
    using assms(2,3) by (intro scan_digits_append) (simp_all add: magnitude_limit_def)
  then have "scan_unsigned (ds @ rest) = Some (min magnitude_limit (digits_value ds), rest)"
    using d ds by (simp add: scan_unsigned_def del: scan_digits.simps)
  then have "scan_int (ds @ rest)
      = Some (stored_int (min magnitude_limit (digits_value ds)), rest)"
    using sign skip ds by (simp add: scan_int_def del: scan_digits.simps)
  then show ?thesis
    using digits_value_nonneg [OF assms(2)] by (simp add: stored_int_saturated)
qed

lemma saturation_examples:
  "scan_int ''99999999999999999999'' = Some (- 1, [])"
  "scan_int ''-99999999999999999999'' = Some (0, [])"
  "scan_int ''4294967295x'' = Some (- 1, ''x'')"
  "scan_int '' -12'' = Some (- 12, [])"
  by (simp_all add: scan_int_def scan_unsigned_def is_space_def is_digit_def digit_val_def
      stored_int_def strtol_saturate_def c_int_def magnitude_limit_def)



lemma sscanf_pair:
  assumes "a \<noteq> []" "b \<noteq> []" "list_all is_digit a" "list_all is_digit b"
    and "\<not> is_digit sep" and "rest = [] \<or> \<not> is_digit (hd rest)"
  shows "sscanf_d_sep_d sep (a @ [sep] @ b @ rest)
     = [stored_int (digits_value a), stored_int (digits_value b)]"
proof -
  have 1: "scan_int (a @ ([sep] @ b @ rest))
      = Some (stored_int (digits_value a), [sep] @ b @ rest)"
    using assms(1,3,5) by (intro scan_int_digits) simp_all
  have 2: "scan_int (b @ rest) = Some (stored_int (digits_value b), rest)"
    using assms(2,4,6) by (intro scan_int_digits) simp_all
  show ?thesis using 1 2 by (simp add: sscanf_d_sep_d_def)
qed








lemma parse_kernel_version_dotted:
  assumes "a \<noteq> []" "b \<noteq> []" "list_all is_digit a" "list_all is_digit b"
    and "rest = [] \<or> \<not> is_digit (hd rest)"
    and "uname_release env = Some (a @ ''.'' @ b @ rest)"
  shows "kernel_version_major (parse_kernel_version env c) = stored_int (digits_value a)"
    and "kernel_version_minor (parse_kernel_version env c) = stored_int (digits_value b)"
proof -
  have "sscanf_d_sep_d (CHR ''.'') (a @ [CHR ''.''] @ b @ rest)
      = [stored_int (digits_value a), stored_int (digits_value b)]"
    using assms(1-5) by (intro sscanf_pair) (simp_all add: is_digit_def)
  then show "kernel_version_major (parse_kernel_version env c) = stored_int (digits_value a)"
    and "kernel_version_minor (parse_kernel_version env c) = stored_int (digits_value b)"
    using assms(6) by (simp_all add: parse_kernel_version_def)
qed

lemma version_detect_capabilities:
  "kernel_version_major (snd (detect_capabilities cfg env)) =
     (if target cfg = Linux
      then kernel_version_major (parse_kernel_version env
             (no_caps\<lparr>has_raw_socket := 1, cpu_count := get_cpu_count cfg env\<rparr>))
      else 0)"
  "kernel_version_minor (snd (detect_capabilities cfg env)) =
     (if target cfg = Linux
      then kernel_version_minor (parse_kernel_version env
             (no_caps\<lparr>has_raw_socket := 1, cpu_count := get_cpu_count cfg env\<rparr>))
      else 0)"
  by (simp_all add: detect_capabilities_def Let_def detect_numa_keeps set_kernel_features_fields
      no_caps_def)

lemma flags_detect_capabilities:
  "(has_sendmmsg (snd (detect_capabilities cfg env)) \<noteq> 0)
     = (kernel_version_major (snd (detect_capabilities cfg env)) \<ge> 3)"
  "(has_io_uring (snd (detect_capabilities cfg env)) \<noteq> 0)
     = ((kernel_version_major (snd (detect_capabilities cfg env)) > 5
         \<or> (kernel_version_major (snd (detect_capabilities cfg env)) = 5
            \<and> kernel_version_minor (snd (detect_capabilities cfg env)) \<ge> 1))
        \<and> HAS_IO_URING cfg)"
  "(has_af_xdp (snd (detect_capabilities cfg env)) \<noteq> 0)
     = ((kernel_version_major (snd (detect_capabilities cfg env)) > 4
         \<or> (kernel_version_major (snd (detect_capabilities cfg env)) = 4
            \<and> kernel_version_minor (snd (detect_capabilities cfg env)) \<ge> 18))
        \<and> HAS_AF_XDP cfg)"
  by (simp_all add: detect_capabilities_def Let_def detect_numa_keeps set_kernel_features_fields
      parse_kernel_version_keeps no_caps_def)

lemma parse_kernel_version_nameless:
  "uname_release env = None \<Longrightarrow> parse_kernel_version env c = c"
  by (simp add: parse_kernel_version_def)



subsection \<open>Claims about the probe\<close>

text \<open>
  C8. The probe sets \<open>has_sendmmsg\<close> exactly when the kernel major version is at least 3,
  \<open>has_io_uring\<close> exactly when the version is at least 5.1 and io_uring was compiled in,
  and \<open>has_af_xdp\<close> exactly when the version is at least 4.18 and XDP was compiled in.
  The version is the one in the host's release string: on Linux, for a release that
  starts with \<open>A.B\<close>, two decimal numbers below \<open>2 ^ 31\<close> with no further digit after
  \<open>B\<close>, the fields hold \<open>A\<close> and \<open>B\<close> and the three flags are decided by \<open>A\<close> and \<open>B\<close>
  (numbers that do not fit are stored as \<open>sscanf\<close> stores them in an \<open>int\<close>). When
  \<open>uname\<close> fails, or the build is not for Linux, the version fields and the three flags
  are 0.
\<close>

theorem detect_capabilities_kernel_flags:
  "(has_sendmmsg (snd (detect_capabilities cfg env)) \<noteq> 0)
     = (kernel_version_major (snd (detect_capabilities cfg env)) \<ge> 3)
   \<and> (has_io_uring (snd (detect_capabilities cfg env)) \<noteq> 0)
     = ((kernel_version_major (snd (detect_capabilities cfg env)) > 5
         \<or> (kernel_version_major (snd (detect_capabilities cfg env)) = 5
            \<and> kernel_version_minor (snd (detect_capabilities cfg env)) \<ge> 1))
        \<and> HAS_IO_URING cfg)
   \<and> (has_af_xdp (snd (detect_capabilities cfg env)) \<noteq> 0)
     = ((kernel_version_major (snd (detect_capabilities cfg env)) > 4
         \<or> (kernel_version_major (snd (detect_capabilities cfg env)) = 4
            \<and> kernel_version_minor (snd (detect_capabilities cfg env)) \<ge> 18))
        \<and> HAS_AF_XDP cfg)
   \<and> (target cfg = Linux \<and> uname_release env = Some (a @ ''.'' @ b @ rest)
        \<and> a \<noteq> [] \<and> b \<noteq> [] \<and> list_all is_digit a \<and> list_all is_digit b
        \<and> (rest = [] \<or> \<not> is_digit (hd rest))
      \<longrightarrow> kernel_version_major (snd (detect_capabilities cfg env)) = stored_int (digits_value a)
        \<and> kernel_version_minor (snd (detect_capabilities cfg env)) = stored_int (digits_value b))
   \<and> (target cfg = Linux \<and> uname_release env = Some (a @ ''.'' @ b @ rest)
        \<and> a \<noteq> [] \<and> b \<noteq> [] \<and> list_all is_digit a \<and> list_all is_digit b
        \<and> (rest = [] \<or> \<not> is_digit (hd rest))
        \<and> digits_value a < 2147483648 \<and> digits_value b < 2147483648
      \<longrightarrow> kernel_version_major (snd (detect_capabilities cfg env)) = digits_value a
        \<and> kernel_version_minor (snd (detect_capabilities cfg env)) = digits_value b
        \<and> (has_sendmmsg (snd (detect_capabilities cfg env)) \<noteq> 0) = (digits_value a \<ge> 3)
        \<and> (has_io_uring (snd (detect_capabilities cfg env)) \<noteq> 0)
            = ((digits_value a > 5 \<or> (digits_value a = 5 \<and> digits_value b \<ge> 1))
               \<and> HAS_IO_URING cfg)
        \<and> (has_af_xdp (snd (detect_capabilities cfg env)) \<noteq> 0)
            = ((digits_value a > 4 \<or> (digits_value a = 4 \<and> digits_value b \<ge> 18))
               \<and> HAS_AF_XDP cfg))
   \<and> (target cfg \<noteq> Linux \<or> uname_release env = None
      \<longrightarrow> kernel_version_major (snd (detect_capabilities cfg env)) = 0
        \<and> kernel_version_minor (snd (detect_capabilities cfg env)) = 0
        \<and> has_sendmmsg (snd (detect_capabilities cfg env)) = 0
        \<and> has_io_uring (snd (detect_capabilities cfg env)) = 0
        \<and> has_af_xdp (snd (detect_capabilities cfg env)) = 0)"
proof -
  let ?caps = "snd (detect_capabilities cfg env)"
  note flags = flags_detect_capabilities [of cfg env]
  have parsed: "kernel_version_major ?caps = stored_int (digits_value a)
      \<and> kernel_version_minor ?caps = stored_int (digits_value b)"
    if "target cfg = Linux" "uname_release env = Some (a @ ''.'' @ b @ rest)"
      "a \<noteq> []" "b \<noteq> []" "list_all is_digit a" "list_all is_digit b"
      "rest = [] \<or> \<not> is_digit (hd rest)"
    using that(1) parse_kernel_version_dotted [OF that(3-7) that(2)]
    by (simp add: version_detect_capabilities)
  have exact: "kernel_version_major ?caps = digits_value a
      \<and> kernel_version_minor ?caps = digits_value b"
    if "target cfg = Linux" "uname_release env = Some (a @ ''.'' @ b @ rest)"
      "a \<noteq> []" "b \<noteq> []" "list_all is_digit a" "list_all is_digit b"
      "rest = [] \<or> \<not> is_digit (hd rest)"
      "digits_value a < 2147483648" "digits_value b < 2147483648"
    using parsed [OF that(1-7)] that(5,6,8,9) by (simp add: stored_digits)
  have zero: "kernel_version_major ?caps = 0 \<and> kernel_version_minor ?caps = 0"
    if "target cfg \<noteq> Linux \<or> uname_release env = None"
    using that
    by (auto simp: version_detect_capabilities parse_kernel_version_nameless no_caps_def)
  have c4: "target cfg = Linux \<and> uname_release env = Some (a @ ''.'' @ b @ rest)
        \<and> a \<noteq> [] \<and> b \<noteq> [] \<and> list_all is_digit a \<and> list_all is_digit b
        \<and> (rest = [] \<or> \<not> is_digit (hd rest))
      \<longrightarrow> kernel_version_major ?caps = stored_int (digits_value a)
        \<and> kernel_version_minor ?caps = stored_int (digits_value b)"
    using parsed by blast
  have c5: "target cfg = Linux \<and> uname_release env = Some (a @ ''.'' @ b @ rest)
        \<and> a \<noteq> [] \<and> b \<noteq> [] \<and> list_all is_digit a \<and> list_all is_digit b
        \<and> (rest = [] \<or> \<not> is_digit (hd rest))
        \<and> digits_value a < 2147483648 \<and> digits_value b < 2147483648
      \<longrightarrow> kernel_version_major ?caps = digits_value a
        \<and> kernel_version_minor ?caps = digits_value b
        \<and> (has_sendmmsg ?caps \<noteq> 0) = (digits_value a \<ge> 3)
        \<and> (has_io_uring ?caps \<noteq> 0)
            = ((digits_value a > 5 \<or> (digits_value a = 5 \<and> digits_value b \<ge> 1))
               \<and> HAS_IO_URING cfg)
        \<and> (has_af_xdp ?caps \<noteq> 0)
            = ((digits_value a > 4 \<or> (digits_value a = 4 \<and> digits_value b \<ge> 18))
               \<and> HAS_AF_XDP cfg)"
  proof (intro impI)
    assume h: "target cfg = Linux \<and> uname_release env = Some (a @ ''.'' @ b @ rest)
        \<and> a \<noteq> [] \<and> b \<noteq> [] \<and> list_all is_digit a \<and> list_all is_digit b
        \<and> (rest = [] \<or> \<not> is_digit (hd rest))
        \<and> digits_value a < 2147483648 \<and> digits_value b < 2147483648"
    then have "kernel_version_major ?caps = digits_value a
      \<and> kernel_version_minor ?caps = digits_value b"
      by (intro exact) simp_all
    with flags show "kernel_version_major ?caps = digits_value a
        \<and> kernel_version_minor ?caps = digits_value b
        \<and> (has_sendmmsg ?caps \<noteq> 0) = (digits_value a \<ge> 3)
        \<and> (has_io_uring ?caps \<noteq> 0)
            = ((digits_value a > 5 \<or> (digits_value a = 5 \<and> digits_value b \<ge> 1))
               \<and> HAS_IO_URING cfg)
        \<and> (has_af_xdp ?caps \<noteq> 0)
            = ((digits_value a > 4 \<or> (digits_value a = 4 \<and> digits_value b \<ge> 18))
               \<and> HAS_AF_XDP cfg)"
      by simp
  qed
  have c6: "target cfg \<noteq> Linux \<or> uname_release env = None
      \<longrightarrow> kernel_version_major ?caps = 0 \<and> kernel_version_minor ?caps = 0
        \<and> has_sendmmsg ?caps = 0 \<and> has_io_uring ?caps = 0 \<and> has_af_xdp ?caps = 0"
  proof (intro impI)
    assume "target cfg \<noteq> Linux \<or> uname_release env = None"
    then have "kernel_version_major ?caps = 0 \<and> kernel_version_minor ?caps = 0"
      by (rule zero)
    with flags show "kernel_version_major ?caps = 0 \<and> kernel_version_minor ?caps = 0
        \<and> has_sendmmsg ?caps = 0 \<and> has_io_uring ?caps = 0 \<and> has_af_xdp ?caps = 0"
      by simp
  qed
  from flags c4 c5 c6 show ?thesis by (intro conjI)
qed


theorem detect_capabilities_kernel_flags_witness:
  "target linux_build = Linux
   \<and> uname_release (sample_host None) = Some (''5'' @ ''.'' @ ''15'' @ ''.0-91-generic'')
   \<and> list_all is_digit ''5'' \<and> list_all is_digit ''15'' \<and> \<not> is_digit (hd ''.0-91-generic'')
   \<and> digits_value ''5'' = 5 \<and> digits_value ''15'' = 15
   \<and> kernel_version_major (snd (detect_capabilities linux_build (sample_host None))) = 5
   \<and> kernel_version_minor (snd (detect_capabilities linux_build (sample_host None))) = 15
   \<and> has_sendmmsg (snd (detect_capabilities linux_build (sample_host None))) \<noteq> 0
   \<and> has_io_uring (snd (detect_capabilities linux_build (sample_host None))) \<noteq> 0
   \<and> has_af_xdp (snd (detect_capabilities linux_build (sample_host None))) = 0
   \<and> uname_release old_host = Some (''2'' @ ''.'' @ ''6'' @ ''.32-754.el6.x86_64'')
   \<and> kernel_version_major (snd (detect_capabilities linux_build old_host)) = 2
   \<and> kernel_version_minor (snd (detect_capabilities linux_build old_host)) = 6
   \<and> has_sendmmsg (snd (detect_capabilities linux_build old_host)) = 0
   \<and> has_io_uring (snd (detect_capabilities linux_build old_host)) = 0
   \<and> uname_release wrapping_host = Some (''4294967298'' @ ''.'' @ ''0'' @ [])
   \<and> kernel_version_major (snd (detect_capabilities linux_build wrapping_host)) = 2
   \<and> has_sendmmsg (snd (detect_capabilities linux_build wrapping_host)) = 0
   \<and> uname_release nameless_host = None
   \<and> kernel_version_major (snd (detect_capabilities linux_build nameless_host)) = 0
   \<and> has_sendmmsg (snd (detect_capabilities linux_build nameless_host)) = 0"
proof -
  have lin: "target linux_build = Linux" "HAS_IO_URING linux_build" "\<not> HAS_AF_XDP linux_build"
    by (simp_all add: linux_build_def)
  have rel: "uname_release (sample_host None) = Some (''5'' @ ''.'' @ ''15'' @ ''.0-91-generic'')"
    "uname_release old_host = Some (''2'' @ ''.'' @ ''6'' @ ''.32-754.el6.x86_64'')"
    "uname_release wrapping_host = Some (''4294967298'' @ ''.'' @ ''0'' @ [])"
    "uname_release nameless_host = None"
    by (simp_all add: sample_host_def old_host_def wrapping_host_def nameless_host_def)
  have dig: "list_all is_digit ''5''" "list_all is_digit ''15''" "list_all is_digit ''2''"
    "list_all is_digit ''6''" "list_all is_digit ''4294967298''" "list_all is_digit ''0''"
    "\<not> is_digit (hd ''.0-91-generic'')" "\<not> is_digit (hd ''.32-754.el6.x86_64'')"
    by (simp_all add: is_digit_def)
  have val: "digits_value ''5'' = 5" "digits_value ''15'' = 15" "digits_value ''2'' = 2"
    "digits_value ''6'' = 6" "digits_value ''0'' = 0"
    "stored_int (digits_value ''4294967298'') = 2"
    by (simp_all add: digits_value_def digit_val_def stored_int_def strtol_saturate_def c_int_def)
  note t1 = detect_capabilities_kernel_flags [of linux_build "sample_host None"
      "''5''" "''15''" "''.0-91-generic''"]
  note t2 = detect_capabilities_kernel_flags [of linux_build old_host
      "''2''" "''6''" "''.32-754.el6.x86_64''"]
  note t3 = detect_capabilities_kernel_flags [of linux_build wrapping_host
      "''4294967298''" "''0''" "[]"]
  note t4 = detect_capabilities_kernel_flags [of linux_build nameless_host "[]" "[]" "[]"]
  from t1 lin rel(1) dig val
  have w1: "kernel_version_major (snd (detect_capabilities linux_build (sample_host None))) = 5
   \<and> kernel_version_minor (snd (detect_capabilities linux_build (sample_host None))) = 15
   \<and> has_sendmmsg (snd (detect_capabilities linux_build (sample_host None))) \<noteq> 0
   \<and> has_io_uring (snd (detect_capabilities linux_build (sample_host None))) \<noteq> 0
   \<and> has_af_xdp (snd (detect_capabilities linux_build (sample_host None))) = 0"
    by simp
  from t2 lin rel(2) dig val
  have w2: "kernel_version_major (snd (detect_capabilities linux_build old_host)) = 2
   \<and> kernel_version_minor (snd (detect_capabilities linux_build old_host)) = 6
   \<and> has_sendmmsg (snd (detect_capabilities linux_build old_host)) = 0
   \<and> has_io_uring (snd (detect_capabilities linux_build old_host)) = 0"
    by simp
  from t3 lin rel(3) dig val
  have w3: "kernel_version_major (snd (detect_capabilities linux_build wrapping_host)) = 2
   \<and> has_sendmmsg (snd (detect_capabilities linux_build wrapping_host)) = 0"
    by auto
  from t4 rel(4)
  have w4: "kernel_version_major (snd (detect_capabilities linux_build nameless_host)) = 0
   \<and> has_sendmmsg (snd (detect_capabilities linux_build nameless_host)) = 0"
    by simp
  from lin rel dig val w1 w2 w3 w4 show ?thesis by simp
qed





section \<open>Raw socket: facts and claims\<close>

lemma store_load_u32:
  "store_u32 host (load_u32 host [b0, b1, b2, b3]) = [b0, b1, b2, b3]"
proof (cases host)
  case Little_endian
  have "ucast (push_bit 24 (ucast b3) OR push_bit 16 (ucast b2) OR push_bit 8 (ucast b1)
          OR (ucast b0 :: u32)) = b0"
    by (rule bit_word_eqI) (auto simp: bit_simps dest: bit_imp_le_length)
  moreover have "ucast (drop_bit 8 (push_bit 24 (ucast b3) OR push_bit 16 (ucast b2)
          OR push_bit 8 (ucast b1) OR (ucast b0 :: u32))) = b1"
    by (rule bit_word_eqI) (auto simp: bit_simps dest: bit_imp_le_length)
  moreover have "ucast (drop_bit 16 (push_bit 24 (ucast b3) OR push_bit 16 (ucast b2)
          OR push_bit 8 (ucast b1) OR (ucast b0 :: u32))) = b2"
    by (rule bit_word_eqI) (auto simp: bit_simps dest: bit_imp_le_length)
  moreover have "ucast (drop_bit 24 (push_bit 24 (ucast b3) OR push_bit 16 (ucast b2)
          OR push_bit 8 (ucast b1) OR (ucast b0 :: u32))) = b3"
    by (rule bit_word_eqI) (auto simp: bit_simps dest: bit_imp_le_length)
  ultimately show ?thesis using Little_endian by simp
next
  case Big_endian
  have "ucast (push_bit 24 (ucast b0) OR push_bit 16 (ucast b1) OR push_bit 8 (ucast b2)
          OR (ucast b3 :: u32)) = b3"
    by (rule bit_word_eqI) (auto simp: bit_simps dest: bit_imp_le_length)
  moreover have "ucast (drop_bit 8 (push_bit 24 (ucast b0) OR push_bit 16 (ucast b1)
          OR push_bit 8 (ucast b2) OR (ucast b3 :: u32))) = b2"
    by (rule bit_word_eqI) (auto simp: bit_simps dest: bit_imp_le_length)
  moreover have "ucast (drop_bit 16 (push_bit 24 (ucast b0) OR push_bit 16 (ucast b1)
          OR push_bit 8 (ucast b2) OR (ucast b3 :: u32))) = b1"
    by (rule bit_word_eqI) (auto simp: bit_simps dest: bit_imp_le_length)
  moreover have "ucast (drop_bit 24 (push_bit 24 (ucast b0) OR push_bit 16 (ucast b1)
          OR push_bit 8 (ucast b2) OR (ucast b3 :: u32))) = b0"
    by (rule bit_word_eqI) (auto simp: bit_simps dest: bit_imp_le_length)
  ultimately show ?thesis using Big_endian by simp
qed

lemma four_bytes_at:
  assumes "off + 4 \<le> length buf"
  shows "take 4 (drop off buf) = [buf ! off, buf ! (off + 1), buf ! (off + 2), buf ! (off + 3)]"
proof -
  have "length (take 4 (drop off buf)) = 4" using assms by simp
  moreover have "take 4 (drop off buf) ! k = buf ! (off + k)" if "k < 4" for k
    using that assms by simp
  ultimately show ?thesis
    by (intro nth_equalityI) (auto simp: less_Suc_eq numeral_Bit0 numeral_Bit1 nth_Cons')
qed

text \<open>
  C10. \<open>raw_socket_send_ip\<close> returns \<open>-1\<close> whenever \<open>len < 20\<close>, without calling
  \<open>sendto\<close>; when \<open>len\<close> is at least 20 (and the buffer holds \<open>len\<close> bytes) it makes exactly
  one \<open>sendto\<close> call, on the whole buffer, whose destination address is in memory the
  bytes 16 to 19 of the buffer, and returns what that call returns.
\<close>

theorem raw_socket_send_ip_destination:
  "(len < 20 \<longrightarrow> raw_socket_send_ip host sendto_ret sockfd data len log = Some (- 1, log))
   \<and> (20 \<le> len \<and> unat len \<le> length data \<longrightarrow>
        (\<exists>call. raw_socket_send_ip host sendto_ret sockfd data len log
                  = Some (int_of_ssize (sendto_ret call), log @ [call])
           \<and> store_u32 host (s_addr (call_dest call))
               = [data ! 16, data ! 17, data ! 18, data ! 19]
           \<and> sin_family (call_dest call) = AF_INET
           \<and> call_sockfd call = sockfd \<and> call_data call = data \<and> call_len call = len))"
proof (intro conjI impI)
  assume "len < 20"
  then show "raw_socket_send_ip host sendto_ret sockfd data len log = Some (- 1, log)"
    by (simp add: raw_socket_send_ip_def)
next
  assume a: "20 \<le> len \<and> unat len \<le> length data"
  then have "20 \<le> unat len" by (simp add: word_le_nat_alt)
  with a have long: "16 + 4 \<le> length data" by simp
  have not_short: "\<not> len < 20" using a by (simp add: not_less)
  let ?bs = "[data ! 16, data ! 17, data ! 18, data ! 19]"
  let ?call = "\<lparr>call_sockfd = sockfd, call_data = data, call_len = len,
      call_dest = \<lparr>sin_family = AF_INET, sin_port = 0, s_addr = load_u32 host ?bs\<rparr>\<rparr>"
  have "read_bytes data 16 4 = Some ?bs"
    using long four_bytes_at [OF long] by (simp add: read_bytes_def)
  then have "raw_socket_send_ip host sendto_ret sockfd data len log
      = Some (int_of_ssize (sendto_ret ?call), log @ [?call])"
    using not_short by (simp add: raw_socket_send_ip_def raw_socket_send_def Let_def)
  moreover have "store_u32 host (s_addr (call_dest ?call)) = ?bs"
    by (simp add: store_load_u32)
  ultimately show "\<exists>call. raw_socket_send_ip host sendto_ret sockfd data len log
                  = Some (int_of_ssize (sendto_ret call), log @ [call])
           \<and> store_u32 host (s_addr (call_dest call))
               = [data ! 16, data ! 17, data ! 18, data ! 19]
           \<and> sin_family (call_dest call) = AF_INET
           \<and> call_sockfd call = sockfd \<and> call_data call = data \<and> call_len call = len"
    by (intro exI [of _ ?call]) simp
qed

theorem raw_socket_send_ip_destination_witness:
  "(1 :: u32) < 20
   \<and> raw_socket_send_ip Little_endian (\<lambda>c. 20) 3 [0x45] 1 [] = Some (- 1, [])
   \<and> (20 :: u32) \<le> 20 \<and> unat (20 :: u32) \<le> length s1_header
   \<and> (\<exists>call. raw_socket_send_ip Little_endian (\<lambda>c. 20) 3 s1_header 20 [] = Some (20, [call])
         \<and> store_u32 Little_endian (s_addr (call_dest call)) = [0xac, 0x10, 0x0a, 0x0c])"
proof -
  have len: "(20 :: u32) \<le> 20 \<and> unat (20 :: u32) \<le> length s1_header"
    by (simp add: s1_header_def)
  have short: "(1 :: u32) < 20" by simp
  from raw_socket_send_ip_destination [of 1 Little_endian "\<lambda>c. 20" 3 "[0x45]" "[]"] short
  have a: "raw_socket_send_ip Little_endian (\<lambda>c. 20) 3 [0x45] 1 [] = Some (- 1, [])"
    by blast
  from raw_socket_send_ip_destination [of 20 Little_endian "\<lambda>c. 20" 3 s1_header "[]"] len
  obtain call where
    "raw_socket_send_ip Little_endian (\<lambda>c. 20) 3 s1_header 20 []
       = Some (int_of_ssize 20, [] @ [call])"
    "store_u32 Little_endian (s_addr (call_dest call))
       = [s1_header ! 16, s1_header ! 17, s1_header ! 18, s1_header ! 19]"
    by blast
  then have "raw_socket_send_ip Little_endian (\<lambda>c. 20) 3 s1_header 20 [] = Some (20, [call])
      \<and> store_u32 Little_endian (s_addr (call_dest call)) = [0xac, 0x10, 0x0a, 0x0c]"
    by (simp add: int_of_ssize_def s1_header_def)
  then show ?thesis using a len short by blast
qed

section \<open>io_uring backend: facts and claims\<close>

lemma prepare_sqes_eq:
  "prepare_sqes fd cap i ps q =
     q @ map (\<lambda>(i, p). \<lparr>sqe_fd = fd, sqe_packet = p, sqe_user_data = of_nat i\<rparr>)
           (enumerate i (take (cap - length q) ps))"
proof (induction ps arbitrary: i q)
  case Nil
  then show ?case by simp
next
  case (Cons p ps)
  show ?case
  proof (cases "cap \<le> length q")
    case True
    then show ?thesis by simp
  next
    case False
    then obtain d where d: "cap - length q = Suc d" by (cases "cap - length q") auto
    then have "cap - Suc (length q) = d" by simp
    with False d show ?thesis by (simp add: Cons.IH)
  qed
qed

lemma consumed_le: "consumed w j n \<le> n"
  by (induction n arbitrary: j) auto

lemma consumed_all: "(\<forall>i<n. w (j + i) = 0) \<Longrightarrow> consumed w j n = n"
proof (induction n arbitrary: j)
  case 0
  then show ?case by simp
next
  case (Suc n)
  from Suc.prems have "w j = 0" by (metis add.right_neutral zero_less_Suc)
  moreover have "\<forall>i<n. w (Suc j + i) = 0"
    using Suc.prems by (metis Suc_less_eq add_Suc_shift)
  ultimately show ?case using Suc.IH [of "Suc j"] by simp
qed

lemma drain_eq:
  "n \<le> length q \<Longrightarrow>
   drain w j n q st k =
     Some (drop (consumed w j n) q,
           foldl (\<lambda>st c. account c st) st (take (consumed w j n) q),
           k + int (length (succeeded (take (consumed w j n) q))))"
proof (induction n arbitrary: j q st k)
  case 0
  then show ?case by (simp add: succeeded_def)
next
  case (Suc n)
  then obtain c q' where q: "q = c # q'" by (cases q) auto
  with Suc.prems have "n \<le> length q'" by simp
  from Suc.IH [OF this] q show ?case by (simp add: succeeded_def)
qed

lemma account_all:
  "packets_sent (foldl (\<lambda>st c. account c st) st cs)
     = packets_sent st + of_nat (length (succeeded cs))"
  "bytes_sent (foldl (\<lambda>st c. account c st) st cs)
     = bytes_sent st + word_of_int (sum_list (map cqe_res (succeeded cs)))"
  "errors (foldl (\<lambda>st c. account c st) st cs) = errors st + of_nat (length (failed cs))"
  "packets_received (foldl (\<lambda>st c. account c st) st cs) = packets_received st"
  "bytes_received (foldl (\<lambda>st c. account c st) st cs) = bytes_received st"
  by (induction cs arbitrary: st) (simp_all add: account_def succeeded_def failed_def)

text \<open>
  C9, as the specification states it, fails where \<open>io_uring_wait_cqe\<close> fails: the loop
  breaks, the call returns, and the completion of its own submission is still in the
  completion queue. Here one packet is submitted, the wait is interrupted, the call
  returns 0 and the completion with result 5 stays pending.
\<close>

theorem io_uring_send_batch_drain_counterexample:
  "io_uring_send_batch interrupted_env ready_state [hello_packet]
     = Some (0, ready_state\<lparr>cq := [\<lparr>cqe_user_data = 0, cqe_res = 5\<rparr>]\<rparr>)"
  by (simp add: io_uring_send_batch_def io_uring_submit_def complete_def interrupted_env_def
      ready_state_def hello_packet_def)

text \<open>
  C9, amended. Called on an initialized backend with nothing pending, when \<open>calloc\<close> and
  \<open>io_uring_submit\<close> succeed, \<open>io_uring_send_batch\<close> returns the number of completions it
  took with result at least 0, increments \<open>packets_sent\<close> by exactly that number and
  \<open>bytes_sent\<close> by the sum of those completions' byte counts, and increments \<open>errors\<close>
  once per completion taken with a negative result. The completions it took are a
  prefix of those posted for its submissions, the rest stay in the completion queue;
  when no \<open>io_uring_wait_cqe\<close> fails it takes them all and none remains pending.
\<close>

theorem io_uring_send_batch_accounting:
  fixes s :: io_uring_state and env :: io_uring_env and packets :: "packet list"
  assumes "io_uring_initialized s" and "calloc_ok env" and "submit_errno env = 0"
    and "sq s = []" and "cq s = []"
  defines "posted \<equiv> map (complete env) (batch_sqes (io_uring_sockfd s) (sq_entries s) packets)"
  defines "seen \<equiv> take (consumed (wait_errno env) 0 (length posted)) posted"
  shows "\<exists>s'. io_uring_send_batch env s packets = Some (int (length (succeeded seen)), s')
     \<and> packets_sent (io_uring_stats s')
         = packets_sent (io_uring_stats s) + of_nat (length (succeeded seen))
     \<and> bytes_sent (io_uring_stats s')
         = bytes_sent (io_uring_stats s) + word_of_int (sum_list (map cqe_res (succeeded seen)))
     \<and> errors (io_uring_stats s') = errors (io_uring_stats s) + of_nat (length (failed seen))
     \<and> posted = seen @ cq s'
     \<and> ((\<forall>j < length posted. wait_errno env j = 0) \<longrightarrow> seen = posted \<and> cq s' = [])"
proof -
  let ?n = "consumed (wait_errno env) 0 (length posted)"
  let ?st = "foldl (\<lambda>st c. account c st) (io_uring_stats s) seen"
  let ?s' = "s\<lparr>sq := [], cq := drop ?n posted, io_uring_stats := ?st\<rparr>"
  have prep: "prepare_sqes (io_uring_sockfd s) (sq_entries s) 0 packets (sq s)
      = batch_sqes (io_uring_sockfd s) (sq_entries s) packets"
    using assms(4) by (simp add: prepare_sqes_eq batch_sqes_def)
  have dr: "drain (wait_errno env) 0 (length posted) posted (io_uring_stats s) 0
      = Some (drop ?n posted, ?st, int (length (succeeded seen)))"
    using drain_eq [of "length posted" posted "wait_errno env" 0 "io_uring_stats s" 0]
    by (simp add: seen_def)
  have len: "length posted = length (batch_sqes (io_uring_sockfd s) (sq_entries s) packets)"
    by (simp add: posted_def)
  have run: "io_uring_send_batch env s packets = Some (int (length (succeeded seen)), ?s')"
    using assms(1-3,5) dr len
    by (simp add: io_uring_send_batch_def io_uring_submit_def prep posted_def [symmetric])
  have all: "(\<forall>j < length posted. wait_errno env j = 0) \<longrightarrow> seen = posted \<and> cq ?s' = []"
    using consumed_all [of "length posted" "wait_errno env" 0] by (simp add: seen_def)
  have split: "posted = seen @ cq ?s'" by (simp add: seen_def)
  show ?thesis
    using run all split by (intro exI [of _ ?s']) (simp add: account_all)
qed

theorem io_uring_send_batch_accounting_witness:
  "io_uring_initialized ready_state \<and> calloc_ok quiet_env \<and> submit_errno quiet_env = 0
   \<and> sq ready_state = [] \<and> cq ready_state = []
   \<and> wait_errno quiet_env 0 = 0 \<and> wait_errno quiet_env 1 = 0 \<and> wait_errno quiet_env 2 = 0
   \<and> (\<exists>s'. io_uring_send_batch quiet_env ready_state [hello_packet, hello_packet, hello_packet]
            = Some (2, s')
          \<and> packets_sent (io_uring_stats s') = 2 \<and> bytes_sent (io_uring_stats s') = 10
          \<and> errors (io_uring_stats s') = 1 \<and> cq s' = [])"
proof -
  have hyps: "io_uring_initialized ready_state" "calloc_ok quiet_env"
    "submit_errno quiet_env = 0" "sq ready_state = []" "cq ready_state = []"
    by (simp_all add: ready_state_def quiet_env_def)
  have waits: "wait_errno quiet_env j = 0" for j
    by (simp add: quiet_env_def)
  have posted: "map (complete quiet_env)
      (batch_sqes (io_uring_sockfd ready_state) (sq_entries ready_state)
        [hello_packet, hello_packet, hello_packet])
      = [\<lparr>cqe_user_data = 0, cqe_res = 5\<rparr>, \<lparr>cqe_user_data = 1, cqe_res = - 11\<rparr>,
         \<lparr>cqe_user_data = 2, cqe_res = 5\<rparr>]"
    by (simp add: batch_sqes_def complete_def quiet_env_def ready_state_def hello_packet_def)
  have stats: "io_uring_stats ready_state = \<lparr>packets_sent = 0, packets_received = 0,
      bytes_sent = 0, bytes_received = 0, errors = 0\<rparr>"
    by (simp add: ready_state_def)
  from io_uring_send_batch_accounting [OF hyps, of "[hello_packet, hello_packet, hello_packet]"]
  obtain s' where
    "io_uring_send_batch quiet_env ready_state [hello_packet, hello_packet, hello_packet]
       = Some (2, s')
     \<and> packets_sent (io_uring_stats s') = 2 \<and> bytes_sent (io_uring_stats s') = 10
     \<and> errors (io_uring_stats s') = 1 \<and> cq s' = []"
    unfolding posted by (auto simp: waits succeeded_def failed_def stats)
  then show ?thesis using hyps waits by blast
qed

section \<open>AF_XDP backend: facts and claims\<close>

subsection \<open>Ring indices and frame addresses\<close>

lemma ring_size_word: "(of_nat NUM_FRAMES :: u32) = 4096"
  by (simp add: NUM_FRAMES_def)

lemma ring_mask: "(of_nat NUM_FRAMES - 1 :: u32) = mask 12"
  by (simp add: NUM_FRAMES_def mask_eq_exp_minus_1)

lemma slot_index_mod: "slot_index x = unat x mod 4096"
  unfolding slot_index_def ring_mask
  by (simp add: unsigned_take_bit_eq take_bit_eq_mod unat_mod flip: take_bit_eq_mask)

lemma unat_add_of_nat: "unat (idx + of_nat a :: u32) = (unat idx + a) mod 4294967296"
  by (simp add: unat_word_ariths unat_of_nat mod_add_right_eq)

lemma slot_index_add: "slot_index (idx + of_nat a) = (unat idx + a) mod 4096"
proof -
  have "(4096::nat) dvd 4294967296" by simp
  then have "(unat idx + a) mod 4294967296 mod 4096 = (unat idx + a) mod 4096"
    by (rule mod_mod_cancel)
  then show ?thesis by (simp add: slot_index_mod unat_add_of_nat)
qed

lemma mod_neq_close:
  assumes "a < b" and "b - a < (q::nat)"
  shows "(c + a) mod q \<noteq> (c + b) mod q"
proof
  assume "(c + a) mod q = (c + b) mod q"
  then have "q dvd (c + b) - (c + a)"
    using assms(1) by (metis add_le_cancel_left less_imp_le_nat mod_eq_dvd_iff_nat)
  then have "q dvd b - a" by simp
  then have "q \<le> b - a" using assms(1) by (intro dvd_imp_le) simp_all
  with assms(2) show False by simp
qed

lemma slot_index_distinct:
  "a < b \<Longrightarrow> b - a < 4096 \<Longrightarrow> slot_index (idx + of_nat a) \<noteq> slot_index (idx + of_nat b)"
  by (simp add: slot_index_add mod_neq_close)

lemma unat_ucast64: "unat (ucast (w :: u32) :: u64) = unat w"
  using unat_lt32 [of w] by (simp add: unsigned_ucast_eq take_bit_eq_mod)

lemma unat_times_frame: "unat (x * FRAME_SIZE) = unat x * 4096 mod 4294967296"
  by (simp add: unat_word_ariths FRAME_SIZE_def)

lemma unat_tx_addr: "unat (tx_addr idx a) = ((unat idx + a) * 4096) mod 4294967296"
proof -
  have "unat (tx_addr idx a) = unat ((idx + of_nat a) * FRAME_SIZE)"
    unfolding tx_addr_def by (rule unat_ucast64)
  also have "\<dots> = ((unat idx + a) mod 4294967296 * 4096) mod 4294967296"
    unfolding unat_times_frame unat_add_of_nat ..
  also have "\<dots> = ((unat idx + a) * 4096) mod 4294967296"
    by (rule mod_mult_left_eq)
  finally show ?thesis .
qed

lemma tx_addr_distinct:
  assumes "a < b" and "b - a < 4096"
  shows "tx_addr idx a \<noteq> tx_addr idx b"
proof
  assume "tx_addr idx a = tx_addr idx b"
  then have "unat (tx_addr idx a) = unat (tx_addr idx b)" by simp
  then have "(unat idx * 4096 + a * 4096) mod 4294967296
      = (unat idx * 4096 + b * 4096) mod 4294967296"
    unfolding unat_tx_addr by (simp only: add_mult_distrib)
  moreover have "a * 4096 < b * 4096" using assms(1) by simp
  moreover have "b * 4096 - a * 4096 < 4294967296" using assms by simp
  ultimately show False using mod_neq_close by blast
qed

lemma word_add_Suc: "idx + of_nat (Suc k) = idx + 1 + (of_nat k :: u32)"
  by simp

lemma write_descs_frame:
  "write_descs idx i ps d m = Inr (d', m') \<Longrightarrow>
   (\<forall>k < length ps. slot \<noteq> slot_index (idx + of_nat (i + k))) \<Longrightarrow> d' slot = d slot"
proof (induction ps arbitrary: i d m)
  case Nil
  then show ?case by simp
next
  case (Cons p ps)
  from Cons.prems(2) [rule_format, of 0] have here: "slot \<noteq> slot_index (idx + of_nat i)"
    by simp
  have rest: "\<forall>k < length ps. slot \<noteq> slot_index (idx + of_nat (Suc i + k))"
  proof (intro allI impI)
    fix k assume "k < length ps"
    then have "Suc k < length (p # ps)" by simp
    with Cons.prems(2) have "slot \<noteq> slot_index (idx + of_nat (i + Suc k))" by blast
    then show "slot \<noteq> slot_index (idx + of_nat (Suc i + k))" by simp
  qed
  from Cons.prems(1) have run: "write_descs idx (Suc i) ps
      (d(slot_index (idx + of_nat i) :=
          (d (slot_index (idx + of_nat i)))\<lparr>desc_addr := tx_addr idx i, desc_len := of_nat (length p)\<rparr>))
      (memcpy_umem m (unat (tx_addr idx i)) p) = Inr (d', m')"
    by (simp split: if_splits)
  from Cons.IH [OF run rest] here show ?case by simp
qed

lemma write_descs_addr:
  "write_descs idx i ps d m = Inr (d', m') \<Longrightarrow> length ps \<le> 4096 \<Longrightarrow> k < length ps \<Longrightarrow>
   desc_addr (d' (slot_index (idx + of_nat (i + k)))) = tx_addr idx (i + k)"
proof (induction ps arbitrary: i d m k)
  case Nil
  then show ?case by simp
next
  case (Cons p ps)
  let ?d1 = "d(slot_index (idx + of_nat i) :=
          (d (slot_index (idx + of_nat i)))\<lparr>desc_addr := tx_addr idx i, desc_len := of_nat (length p)\<rparr>)"
  from Cons.prems(1) have run: "write_descs idx (Suc i) ps ?d1
      (memcpy_umem m (unat (tx_addr idx i)) p) = Inr (d', m')"
    by (simp split: if_splits)
  show ?case
  proof (cases k)
    case 0
    have "\<forall>j < length ps. slot_index (idx + of_nat i) \<noteq> slot_index (idx + of_nat (Suc i + j))"
    proof (intro allI impI)
      fix j assume "j < length ps"
      with Cons.prems(2) have "Suc i + j - i < 4096" by simp
      moreover have "i < Suc i + j" by simp
      ultimately show "slot_index (idx + of_nat i) \<noteq> slot_index (idx + of_nat (Suc i + j))"
        by (rule slot_index_distinct [rotated])
    qed
    from write_descs_frame [OF run this] 0 show ?thesis by simp
  next
    case (Suc k')
    with Cons.prems have "length ps \<le> 4096" "k' < length ps" by simp_all
    from Cons.IH [OF run this] Suc show ?thesis by simp
  qed
qed

lemma write_descs_total:
  "(\<forall>k < length ps. unat (tx_addr idx (i + k)) + length (ps ! k) \<le> umem_size) \<Longrightarrow>
   \<exists>d' m'. write_descs idx i ps d m = Inr (d', m')"
proof (induction ps arbitrary: i d m)
  case Nil
  then show ?case by simp
next
  case (Cons p ps)
  from Cons.prems [rule_format, of 0] have here: "unat (tx_addr idx i) + length p \<le> umem_size"
    by simp
  have "\<forall>k < length ps. unat (tx_addr idx (Suc i + k)) + length (ps ! k) \<le> umem_size"
  proof (intro allI impI)
    fix k assume "k < length ps"
    then have "Suc k < length (p # ps)" by simp
    with Cons.prems have "unat (tx_addr idx (i + Suc k)) + length ((p # ps) ! Suc k) \<le> umem_size"
      by blast
    then show "unat (tx_addr idx (Suc i + k)) + length (ps ! k) \<le> umem_size" by simp
  qed
  from Cons.IH [OF this] here show ?case by simp
qed

lemma fill_frames_frame:
  "(\<forall>k < n. slot \<noteq> slot_index (idx + of_nat k)) \<Longrightarrow> fill_frames n i idx sl slot = sl slot"
proof (induction n arbitrary: i idx sl)
  case 0
  then show ?case by simp
next
  case (Suc n)
  from Suc.prems [rule_format, of 0] have here: "slot \<noteq> slot_index idx"
    by simp
  have "\<forall>k < n. slot \<noteq> slot_index (idx + 1 + of_nat k)"
  proof (intro allI impI)
    fix k assume "k < n"
    then have "Suc k < Suc n" by simp
    from Suc.prems [rule_format, OF this] have "slot \<noteq> slot_index (idx + of_nat (Suc k))" .
    then show "slot \<noteq> slot_index (idx + 1 + of_nat k)" unfolding word_add_Suc .
  qed
  from Suc.IH [OF this] here show ?case by simp
qed

lemma fill_frames_at:
  "n \<le> 4096 \<Longrightarrow> k < n \<Longrightarrow>
   fill_frames n i idx sl (slot_index (idx + of_nat k)) = ucast (of_nat (i + k) * FRAME_SIZE)"
proof (induction n arbitrary: i idx sl k)
  case 0
  then show ?case by simp
next
  case (Suc n)
  show ?case
  proof (cases k)
    case 0
    have "\<forall>j < n. slot_index idx \<noteq> slot_index (idx + 1 + of_nat j)"
    proof (intro allI impI)
      fix j assume "j < n"
      with Suc.prems(1) have "Suc j - 0 < 4096" by simp
      then have "slot_index (idx + of_nat 0) \<noteq> slot_index (idx + of_nat (Suc j))"
        by (intro slot_index_distinct) simp_all
      then show "slot_index idx \<noteq> slot_index (idx + 1 + of_nat j)"
        unfolding word_add_Suc by simp
    qed
    from fill_frames_frame [OF this] 0 show ?thesis by simp
  next
    case (Suc k')
    with Suc.prems have "n \<le> 4096" "k' < n" by simp_all
    from Suc.IH [OF this, of "Suc i" "idx + 1"] Suc show ?thesis
      by (simp add: add.assoc)
  qed
qed

lemma unat_of_nat64: "n < 18446744073709551616 \<Longrightarrow> unat (of_nat n :: u64) = n"
  by (simp add: unat_of_nat)

lemma unat_of_nat32: "n < 4294967296 \<Longrightarrow> unat (of_nat n :: u32) = n"
  by (simp add: unat_of_nat)

lemma frame_address:
  assumes "k < NUM_FRAMES"
  shows "(ucast (of_nat k * FRAME_SIZE :: u32) :: u64) = of_nat (k * unat FRAME_SIZE)"
proof -
  from assms have k: "k * 4096 < 16777216" by (simp add: NUM_FRAMES_def)
  from k have "unat (of_nat k :: u32) = k" by (intro unat_of_nat32) simp
  then have "unat (of_nat k * FRAME_SIZE :: u32) = k * 4096 mod 4294967296"
    by (simp only: unat_times_frame)
  also have "\<dots> = k * 4096" using k by simp
  finally have l: "unat (ucast (of_nat k * FRAME_SIZE :: u32) :: u64) = k * 4096"
    by (simp only: unat_ucast64)
  have "unat FRAME_SIZE = 4096" by (simp add: FRAME_SIZE_def)
  moreover have "unat (of_nat (k * 4096) :: u64) = k * 4096"
    using k by (intro unat_of_nat64) simp
  ultimately have "unat (of_nat (k * unat FRAME_SIZE) :: u64) = k * 4096"
    by (simp only:)
  with l show ?thesis by (simp only: word_unat_eq_iff)
qed

lemma reserve_fresh_all:
  "xsk_ring_prod__reserve fresh_ring (of_nat NUM_FRAMES)
     = (of_nat NUM_FRAMES, Some 0, fresh_ring\<lparr>cached_prod := of_nat NUM_FRAMES\<rparr>)"
  by (simp add: xsk_ring_prod__reserve_def xsk_prod_nb_free_def fresh_ring_def Let_def)

lemma init_af_xdp_ok:
  assumes "ifindex env \<noteq> 0" and "alloc_ok env" and "umem_create_ret env = 0"
    and "socket_create_ret env = 0"
  shows "init_af_xdp env s0 =
     Inr (socket_fd env,
          s0\<lparr>xsk := Some (socket_fd env),
             fq := xsk_ring_prod__submit (fresh_ring\<lparr>cached_prod := of_nat NUM_FRAMES\<rparr>)
                     (of_nat NUM_FRAMES),
             tx_ring := fresh_ring,
             fq_addrs := fill_frames NUM_FRAMES 0 0 (fq_addrs s0)\<rparr>)"
  using assms by (simp add: init_af_xdp_def reserve_fresh_all)

lemma posted_slots_full:
  "posted_slots (xsk_ring_prod__submit (fresh_ring\<lparr>cached_prod := of_nat NUM_FRAMES\<rparr>)
      (of_nat NUM_FRAMES)) = map (\<lambda>k. slot_index (0 + of_nat k)) [0..<NUM_FRAMES]"
proof -
  have "unat (of_nat NUM_FRAMES :: u32) = NUM_FRAMES"
    by (simp add: unat_of_nat NUM_FRAMES_def)
  then show ?thesis
    by (simp add: posted_slots_def xsk_ring_prod__submit_def fresh_ring_def)
qed

lemma posted_slots_fresh: "posted_slots fresh_ring = []"
  by (simp add: posted_slots_def fresh_ring_def)

lemma fill_posted_after_init:
  assumes "fq s = xsk_ring_prod__submit (fresh_ring\<lparr>cached_prod := of_nat NUM_FRAMES\<rparr>)
      (of_nat NUM_FRAMES)"
    and "fq_addrs s = fill_frames NUM_FRAMES 0 0 sl"
  shows "fill_posted s = map (\<lambda>k. of_nat (k * unat FRAME_SIZE)) [0..<NUM_FRAMES]"
proof -
  have "fill_frames NUM_FRAMES 0 0 sl (slot_index (0 + of_nat k)) = of_nat (k * unat FRAME_SIZE)"
    if "k < NUM_FRAMES" for k
  proof -
    have "NUM_FRAMES \<le> 4096" by (simp add: NUM_FRAMES_def)
    from fill_frames_at [OF this that, of 0 0 sl] show ?thesis
      using frame_address [OF that] by simp
  qed
  then show ?thesis
    unfolding fill_posted_def assms posted_slots_full by (simp add: comp_def)
qed

lemma send_batch_ok:
  assumes "xsk s = Some fd" and "length packets \<le> NUM_FRAMES"
    and "xsk_ring_prod__reserve (tx_ring s) (of_nat (length packets))
           = (of_nat (length packets), Some idx, r)"
    and "\<forall>k < length packets. unat (tx_addr idx k) + length (packets ! k) \<le> umem_size"
  shows "\<exists>descs m. write_descs idx 0 packets (tx_descs s) (umem_area s) = Inr (descs, m)
     \<and> af_xdp_send_batch s packets =
         Inr (int (length packets),
              kick_tx (s\<lparr>tx_ring := xsk_ring_prod__submit r (of_nat (length packets)),
                         tx_descs := descs, umem_area := m\<rparr>))"
proof -
  from assms(2) have small: "length packets < 2147483648" by (simp add: NUM_FRAMES_def)
  then have n: "unat (of_nat (length packets) :: u32) = length packets"
    by (simp add: unat_of_nat)
  have "sint (of_nat (length packets) :: u32) = int (length packets)"
    using small by (simp add: signed_of_nat signed_take_bit_int_eq_self)
  moreover from write_descs_total [of packets idx 0 "tx_descs s" "umem_area s"] assms(4)
  obtain descs m where "write_descs idx 0 packets (tx_descs s) (umem_area s) = Inr (descs, m)"
    by auto
  ultimately show ?thesis
    using assms(1,3) n by (simp add: af_xdp_send_batch_def)
qed

lemma kick_tx_fields:
  "tx_descs (kick_tx s) = tx_descs s" "tx_ring (kick_tx s) = tx_ring s"
  "fq (kick_tx s) = fq s" "fq_addrs (kick_tx s) = fq_addrs s"
  by (simp_all add: kick_tx_def)

lemma send_ok:
  assumes "xsk s = Some fd" and "xsk_ring_prod__reserve (tx_ring s) 1 = (1, Some idx, r)"
    and "unat (tx_addr idx 0) + length data \<le> umem_size"
  shows "af_xdp_send s data =
     Inr (sint (of_nat (length data) :: u32),
          kick_tx (s\<lparr>tx_ring := xsk_ring_prod__submit r 1,
            tx_descs := (tx_descs s)(slot_index idx :=
              (tx_descs s (slot_index idx))\<lparr>desc_addr := ucast (idx * FRAME_SIZE),
                 desc_len := of_nat (length data)\<rparr>),
            umem_area := memcpy_umem (umem_area s) (unat (tx_addr idx 0)) data\<rparr>))"
  using assms by (simp add: af_xdp_send_def tx_addr_def)

lemma tx_addr_inj: "n \<le> 4096 \<Longrightarrow> inj_on (tx_addr idx) {0..<n}"
proof (rule inj_onI)
  fix a b assume n: "n \<le> 4096" and a: "a \<in> {0..<n}" and b: "b \<in> {0..<n}"
    and eq: "tx_addr idx a = tx_addr idx b"
  show "a = b"
  proof (rule ccontr)
    assume "a \<noteq> b"
    then consider "a < b" | "b < a" by linarith
    then show False
    proof cases
      case 1
      moreover from n a b have "b - a < 4096" by simp
      ultimately show False using tx_addr_distinct eq by blast
    next
      case 2
      moreover from n a b have "a - b < 4096" by simp
      ultimately show False using tx_addr_distinct eq by metis
    qed
  qed
qed

lemma fill_posted_cong: "fq s' = fq s \<Longrightarrow> fq_addrs s' = fq_addrs s \<Longrightarrow> fill_posted s' = fill_posted s"
  by (simp add: fill_posted_def)

subsection \<open>The first batch after initialization\<close>

lemma booted_eq:
  "init_af_xdp good_env blank_state = Inr (7, booted)"
proof -
  have "init_af_xdp good_env blank_state = Inr (socket_fd good_env,
      blank_state\<lparr>xsk := Some (socket_fd good_env),
             fq := xsk_ring_prod__submit (fresh_ring\<lparr>cached_prod := of_nat NUM_FRAMES\<rparr>)
                     (of_nat NUM_FRAMES),
             tx_ring := fresh_ring,
             fq_addrs := fill_frames NUM_FRAMES 0 0 (fq_addrs blank_state)\<rparr>)"
    by (rule init_af_xdp_ok) (simp_all add: good_env_def)
  then show ?thesis by (simp add: booted_def good_env_def)
qed

lemma booted_state:
  "booted = blank_state\<lparr>xsk := Some 7,
     fq := xsk_ring_prod__submit (fresh_ring\<lparr>cached_prod := of_nat NUM_FRAMES\<rparr>)
             (of_nat NUM_FRAMES),
     tx_ring := fresh_ring,
     fq_addrs := fill_frames NUM_FRAMES 0 0 (fq_addrs blank_state)\<rparr>"
proof -
  have "init_af_xdp good_env blank_state = Inr (socket_fd good_env,
      blank_state\<lparr>xsk := Some (socket_fd good_env),
             fq := xsk_ring_prod__submit (fresh_ring\<lparr>cached_prod := of_nat NUM_FRAMES\<rparr>)
                     (of_nat NUM_FRAMES),
             tx_ring := fresh_ring,
             fq_addrs := fill_frames NUM_FRAMES 0 0 (fq_addrs blank_state)\<rparr>)"
    by (rule init_af_xdp_ok) (simp_all add: good_env_def)
  then show ?thesis by (simp add: booted_def good_env_def)
qed

lemma booted_fields:
  "xsk booted = Some 7" "tx_ring booted = fresh_ring"
  "fq booted = xsk_ring_prod__submit (fresh_ring\<lparr>cached_prod := of_nat NUM_FRAMES\<rparr>)
                     (of_nat NUM_FRAMES)"
  "fq_addrs booted = fill_frames NUM_FRAMES 0 0 (\<lambda>k. 0)"
  "tx_needs_wakeup booted"
  by (simp_all add: booted_state blank_state_def)

lemma reserve_fresh_one:
  "xsk_ring_prod__reserve fresh_ring 1 = (1, Some 0, fresh_ring\<lparr>cached_prod := 1\<rparr>)"
  by (simp add: xsk_ring_prod__reserve_def xsk_prod_nb_free_def fresh_ring_def Let_def
      ring_size_word)

lemma hello_fits: "unat (tx_addr 0 0) + length hello_frame \<le> umem_size"
  by (simp add: tx_addr_def umem_size_def NUM_FRAMES_def FRAME_SIZE_def hello_frame_def)

lemma hello_fits_not: "\<not> umem_size < unat (tx_addr 0 0) + length hello_frame"
  using hello_fits by simp

lemma slot_index_0: "slot_index 0 = 0"
  by (simp add: slot_index_mod)

lemma sent_one_eq:
  "af_xdp_send_batch booted [hello_frame] = Inr (1, sent_one)"
proof -
  have "\<exists>descs m. write_descs 0 0 [hello_frame] (tx_descs booted) (umem_area booted) = Inr (descs, m)
     \<and> af_xdp_send_batch booted [hello_frame] =
         Inr (int (length [hello_frame]),
              kick_tx (booted\<lparr>tx_ring := xsk_ring_prod__submit (fresh_ring\<lparr>cached_prod := 1\<rparr>)
                           (of_nat (length [hello_frame])),
                         tx_descs := descs, umem_area := m\<rparr>))"
    by (rule send_batch_ok [where fd = 7])
      (simp_all add: booted_fields reserve_fresh_one hello_fits NUM_FRAMES_def)
  then obtain s' where "af_xdp_send_batch booted [hello_frame] = Inr (1, s')" by auto
  then show ?thesis by (simp add: sent_one_def)
qed

lemma sent_one_state:
  "sent_one =
      kick_tx (booted\<lparr>tx_ring := xsk_ring_prod__submit (fresh_ring\<lparr>cached_prod := 1\<rparr>) 1,
         tx_descs := (tx_descs booted)(0 := (tx_descs booted 0)\<lparr>desc_addr := 0, desc_len := 5\<rparr>),
         umem_area := memcpy_umem (umem_area booted) 0 hello_frame\<rparr>)"
proof -
  have w: "write_descs 0 0 [hello_frame] (tx_descs booted) (umem_area booted)
      = Inr ((tx_descs booted)(0 := (tx_descs booted 0)\<lparr>desc_addr := 0, desc_len := 5\<rparr>),
             memcpy_umem (umem_area booted) 0 hello_frame)"
    by (simp add: slot_index_0 hello_fits_not) (simp add: tx_addr_def hello_frame_def)
  have "af_xdp_send_batch booted [hello_frame] =
      Inr (1, kick_tx (booted\<lparr>tx_ring := xsk_ring_prod__submit (fresh_ring\<lparr>cached_prod := 1\<rparr>) 1,
         tx_descs := (tx_descs booted)(0 := (tx_descs booted 0)\<lparr>desc_addr := 0, desc_len := 5\<rparr>),
         umem_area := memcpy_umem (umem_area booted) 0 hello_frame\<rparr>))"
    using w by (simp add: af_xdp_send_batch_def booted_fields reserve_fresh_one hello_fits_not
        del: write_descs.simps)
  with sent_one_eq show ?thesis by simp
qed

lemma tx_posted_sent_one: "tx_posted sent_one = [0]"
  unfolding tx_posted_def posted_slots_def sent_one_state
  by (simp add: kick_tx_fields xsk_ring_prod__submit_def fresh_ring_def slot_index_0)

lemma fill_posted_sent_one: "fill_posted sent_one = fill_posted booted"
  by (rule fill_posted_cong) (simp_all add: sent_one_state kick_tx_fields)

lemma fill_posted_booted:
  "fill_posted booted = map (\<lambda>k. of_nat (k * unat FRAME_SIZE)) [0..<NUM_FRAMES]"
  by (rule fill_posted_after_init [where sl = "\<lambda>k. 0"]) (simp_all add: booted_fields)

lemma zero_in_fill_posted_booted: "0 \<in> set (fill_posted booted)"
proof -
  have "0 \<in> set [0..<NUM_FRAMES]" by (simp add: NUM_FRAMES_def)
  then have "(of_nat (0 * unat FRAME_SIZE) :: u64) \<in> set (fill_posted booted)"
    unfolding fill_posted_booted set_map by (rule imageI)
  then show ?thesis by simp
qed

subsection \<open>Claims about the rings\<close>

text \<open>
  C1, as the specification states it, fails on the first send after initialization:
  \<open>init_af_xdp\<close> posts every frame address, 0 among them, to the fill ring, and the
  first \<open>af_xdp_send_batch\<close> reserves tx slot 0 and writes the address \<open>0 * FRAME_SIZE\<close>
  into its descriptor. Address 0 is then in the fill ring and in the tx ring at once.
\<close>

theorem af_xdp_fill_tx_counterexample:
  "init_af_xdp good_env blank_state = Inr (7, booted)
   \<and> af_xdp_send_batch booted [hello_frame] = Inr (1, sent_one)
   \<and> 0 \<in> set (fill_posted booted)
   \<and> 0 \<in> set (fill_posted sent_one)
   \<and> 0 \<in> set (tx_posted sent_one)"
  by (simp add: booted_eq sent_one_eq zero_in_fill_posted_booted fill_posted_sent_one
      tx_posted_sent_one)

text \<open>
  C1, amended. \<open>init_af_xdp\<close>, when every step succeeds, posts all \<open>NUM_FRAMES\<close> addresses
  \<open>0, FRAME_SIZE, ..., (NUM_FRAMES - 1) * FRAME_SIZE\<close> to the fill ring and leaves the tx
  ring empty. \<open>af_xdp_send_batch\<close>, for a batch that is reserved whole and fits the UMEM
  area, returns the batch size and writes into the descriptor of each reserved slot
  \<open>idx + i\<close> the address \<open>(idx + i) * FRAME_SIZE\<close> (in 32 bits), where \<open>idx\<close> is the tx
  producer index; the addresses written by one batch are pairwise distinct.
  \<open>af_xdp_send\<close> writes \<open>idx * FRAME_SIZE\<close>. Neither consults or changes the fill ring, so
  an address written into a tx descriptor may be among those posted to the fill ring.
\<close>

theorem af_xdp_tx_addresses:
  "(ifindex env \<noteq> 0 \<and> alloc_ok env \<and> umem_create_ret env = 0 \<and> socket_create_ret env = 0
      \<longrightarrow> (\<exists>s1. init_af_xdp env s0 = Inr (socket_fd env, s1)
              \<and> fill_posted s1 = map (\<lambda>k. of_nat (k * unat FRAME_SIZE)) [0..<NUM_FRAMES]
              \<and> tx_posted s1 = []))
   \<and> (xsk s = Some fd \<and> length packets \<le> NUM_FRAMES
        \<and> xsk_ring_prod__reserve (tx_ring s) (of_nat (length packets))
            = (of_nat (length packets), Some idx, r)
        \<and> (\<forall>k < length packets. unat (tx_addr idx k) + length (packets ! k) \<le> umem_size)
      \<longrightarrow> (\<exists>s'. af_xdp_send_batch s packets = Inr (int (length packets), s')
              \<and> (\<forall>k < length packets.
                    desc_addr (tx_descs s' (slot_index (idx + of_nat k)))
                      = ucast ((idx + of_nat k) * FRAME_SIZE))
              \<and> distinct (map (\<lambda>k. desc_addr (tx_descs s' (slot_index (idx + of_nat k))))
                    [0..<length packets])
              \<and> fill_posted s' = fill_posted s))
   \<and> (xsk s = Some fd \<and> xsk_ring_prod__reserve (tx_ring s) 1 = (1, Some idx, r)
        \<and> unat (tx_addr idx 0) + length data \<le> umem_size
      \<longrightarrow> (\<exists>s'. af_xdp_send s data = Inr (sint (of_nat (length data) :: u32), s')
              \<and> desc_addr (tx_descs s' (slot_index idx)) = ucast (idx * FRAME_SIZE)
              \<and> fill_posted s' = fill_posted s))"
proof (intro conjI impI)
  assume "ifindex env \<noteq> 0 \<and> alloc_ok env \<and> umem_create_ret env = 0 \<and> socket_create_ret env = 0"
  then have ok: "ifindex env \<noteq> 0" "alloc_ok env" "umem_create_ret env = 0"
    "socket_create_ret env = 0" by simp_all
  let ?s1 = "s0\<lparr>xsk := Some (socket_fd env),
             fq := xsk_ring_prod__submit (fresh_ring\<lparr>cached_prod := of_nat NUM_FRAMES\<rparr>)
                     (of_nat NUM_FRAMES),
             tx_ring := fresh_ring,
             fq_addrs := fill_frames NUM_FRAMES 0 0 (fq_addrs s0)\<rparr>"
  have "fill_posted ?s1 = map (\<lambda>k. of_nat (k * unat FRAME_SIZE)) [0..<NUM_FRAMES]"
    by (rule fill_posted_after_init [where sl = "fq_addrs s0"]) simp_all
  moreover have "tx_posted ?s1 = []"
    by (simp add: tx_posted_def posted_slots_fresh)
  ultimately show "\<exists>s1. init_af_xdp env s0 = Inr (socket_fd env, s1)
              \<and> fill_posted s1 = map (\<lambda>k. of_nat (k * unat FRAME_SIZE)) [0..<NUM_FRAMES]
              \<and> tx_posted s1 = []"
    using init_af_xdp_ok [OF ok, of s0] by blast
next
  assume a: "xsk s = Some fd \<and> length packets \<le> NUM_FRAMES
        \<and> xsk_ring_prod__reserve (tx_ring s) (of_nat (length packets))
            = (of_nat (length packets), Some idx, r)
        \<and> (\<forall>k < length packets. unat (tx_addr idx k) + length (packets ! k) \<le> umem_size)"
  then have n: "length packets \<le> 4096" by (simp add: NUM_FRAMES_def)
  from a send_batch_ok [of s fd packets idx r]
  obtain descs m where w: "write_descs idx 0 packets (tx_descs s) (umem_area s) = Inr (descs, m)"
    and run: "af_xdp_send_batch s packets =
         Inr (int (length packets),
              kick_tx (s\<lparr>tx_ring := xsk_ring_prod__submit r (of_nat (length packets)),
                         tx_descs := descs, umem_area := m\<rparr>))"
    by blast
  let ?s' = "kick_tx (s\<lparr>tx_ring := xsk_ring_prod__submit r (of_nat (length packets)),
                         tx_descs := descs, umem_area := m\<rparr>)"
  have addr: "desc_addr (tx_descs ?s' (slot_index (idx + of_nat k))) = tx_addr idx k"
    if "k < length packets" for k
    using write_descs_addr [OF w n that] by (simp add: kick_tx_fields)
  then have eq: "map (\<lambda>k. desc_addr (tx_descs ?s' (slot_index (idx + of_nat k)))) [0..<length packets]
      = map (tx_addr idx) [0..<length packets]"
    by simp
  have "distinct (map (tx_addr idx) [0..<length packets])"
    using tx_addr_inj [OF n] by (simp add: distinct_map)
  then have d: "distinct (map (\<lambda>k. desc_addr (tx_descs ?s' (slot_index (idx + of_nat k))))
      [0..<length packets])"
    unfolding eq .
  have f: "fill_posted ?s' = fill_posted s"
    by (rule fill_posted_cong) (simp_all add: kick_tx_fields)
  from addr have "\<forall>k < length packets.
        desc_addr (tx_descs ?s' (slot_index (idx + of_nat k))) = ucast ((idx + of_nat k) * FRAME_SIZE)"
    by (simp add: tx_addr_def)
  with run d f show "\<exists>s'. af_xdp_send_batch s packets = Inr (int (length packets), s')
              \<and> (\<forall>k < length packets.
                    desc_addr (tx_descs s' (slot_index (idx + of_nat k)))
                      = ucast ((idx + of_nat k) * FRAME_SIZE))
              \<and> distinct (map (\<lambda>k. desc_addr (tx_descs s' (slot_index (idx + of_nat k))))
                    [0..<length packets])
              \<and> fill_posted s' = fill_posted s"
    by blast
next
  assume a: "xsk s = Some fd \<and> xsk_ring_prod__reserve (tx_ring s) 1 = (1, Some idx, r)
        \<and> unat (tx_addr idx 0) + length data \<le> umem_size"
  let ?s' = "kick_tx (s\<lparr>tx_ring := xsk_ring_prod__submit r 1,
            tx_descs := (tx_descs s)(slot_index idx :=
              (tx_descs s (slot_index idx))\<lparr>desc_addr := ucast (idx * FRAME_SIZE),
                 desc_len := of_nat (length data)\<rparr>),
            umem_area := memcpy_umem (umem_area s) (unat (tx_addr idx 0)) data\<rparr>)"
  from a have run: "af_xdp_send s data = Inr (sint (of_nat (length data) :: u32), ?s')"
    using send_ok [of s fd idx r data] by blast
  have "desc_addr (tx_descs ?s' (slot_index idx)) = ucast (idx * FRAME_SIZE)"
    by (simp add: kick_tx_fields)
  moreover have "fill_posted ?s' = fill_posted s"
    by (rule fill_posted_cong) (simp_all add: kick_tx_fields)
  ultimately show "\<exists>s'. af_xdp_send s data = Inr (sint (of_nat (length data) :: u32), s')
              \<and> desc_addr (tx_descs s' (slot_index idx)) = ucast (idx * FRAME_SIZE)
              \<and> fill_posted s' = fill_posted s"
    using run by blast
qed

theorem af_xdp_tx_addresses_witness:
  "ifindex good_env \<noteq> 0 \<and> alloc_ok good_env \<and> umem_create_ret good_env = 0
   \<and> socket_create_ret good_env = 0
   \<and> (\<exists>s1. init_af_xdp good_env blank_state = Inr (7, s1)
         \<and> fill_posted s1 = map (\<lambda>k. of_nat (k * unat FRAME_SIZE)) [0..<NUM_FRAMES]
         \<and> tx_posted s1 = [])
   \<and> xsk sent_one = Some 7 \<and> length [hello_frame, s1_header] \<le> NUM_FRAMES
   \<and> xsk_ring_prod__reserve (tx_ring sent_one) 2
       = (2, Some 1, \<lparr>cached_prod = 3, cached_cons = 4096, producer = 1, consumer = 0\<rparr>)
   \<and> unat (tx_addr 1 0) + length hello_frame \<le> umem_size
   \<and> unat (tx_addr 1 1) + length s1_header \<le> umem_size
   \<and> desc_addr (tx_descs sent_one (slot_index 1)) = 0
   \<and> desc_addr (tx_descs sent_one (slot_index 2)) = 0
   \<and> (\<exists>s'. af_xdp_send_batch sent_one [hello_frame, s1_header] = Inr (2, s')
         \<and> desc_addr (tx_descs s' (slot_index 1)) = 4096
         \<and> desc_addr (tx_descs s' (slot_index 2)) = 8192
         \<and> distinct [desc_addr (tx_descs s' (slot_index 1)),
               desc_addr (tx_descs s' (slot_index 2))]
         \<and> fill_posted s' = fill_posted sent_one)
   \<and> xsk_ring_prod__reserve (tx_ring sent_one) 1
       = (1, Some 1, \<lparr>cached_prod = 2, cached_cons = 4096, producer = 1, consumer = 0\<rparr>)
   \<and> (\<exists>s'. af_xdp_send sent_one hello_frame = Inr (5, s')
         \<and> desc_addr (tx_descs s' (slot_index 1)) = 4096
         \<and> fill_posted s' = fill_posted sent_one)"
proof -
  let ?r3 = "\<lparr>cached_prod = 3, cached_cons = 4096, producer = 1, consumer = (0::u32)\<rparr>"
  let ?r2 = "\<lparr>cached_prod = 2, cached_cons = 4096, producer = 1, consumer = (0::u32)\<rparr>"
  have env: "ifindex good_env \<noteq> 0 \<and> alloc_ok good_env \<and> umem_create_ret good_env = 0
      \<and> socket_create_ret good_env = 0"
    by (simp add: good_env_def)
  have sock: "xsk sent_one = Some 7"
    by (simp add: sent_one_state kick_tx_def booted_fields)
  have ring: "tx_ring sent_one
      = \<lparr>cached_prod = 1, cached_cons = 4096, producer = 1, consumer = 0\<rparr>"
    by (simp add: sent_one_state kick_tx_fields xsk_ring_prod__submit_def fresh_ring_def
        ring_size_word)
  have res2: "xsk_ring_prod__reserve (tx_ring sent_one) 2 = (2, Some 1, ?r3)"
    by (simp add: ring xsk_ring_prod__reserve_def xsk_prod_nb_free_def Let_def)
  have res1: "xsk_ring_prod__reserve (tx_ring sent_one) 1 = (1, Some 1, ?r2)"
    by (simp add: ring xsk_ring_prod__reserve_def xsk_prod_nb_free_def Let_def)
  have addr: "tx_addr 1 0 = 4096" "tx_addr 1 (Suc 0) = 8192"
    by (simp_all add: tx_addr_def FRAME_SIZE_def)
  have fits: "unat (tx_addr 1 0) + length hello_frame \<le> umem_size"
    "unat (tx_addr 1 1) + length s1_header \<le> umem_size"
    by (simp_all add: addr umem_size_def NUM_FRAMES_def FRAME_SIZE_def hello_frame_def
        s1_header_def)
  have slots: "slot_index 1 = 1" "slot_index 2 = 2"
    by (simp_all add: slot_index_mod)
  have before: "desc_addr (tx_descs sent_one (slot_index 1)) = 0"
    "desc_addr (tx_descs sent_one (slot_index 2)) = 0"
    by (simp_all add: slots sent_one_state kick_tx_fields booted_state blank_state_def)
  have len: "length [hello_frame, s1_header] \<le> NUM_FRAMES"
    by (simp add: NUM_FRAMES_def)
  have all_fit: "\<forall>k < length [hello_frame, s1_header].
      unat (tx_addr 1 k) + length ([hello_frame, s1_header] ! k) \<le> umem_size"
    using fits by (simp add: less_Suc_eq numeral_2_eq_2)
  note tb = af_xdp_tx_addresses [where env = good_env and ?s0.0 = blank_state
      and s = sent_one and fd = 7 and packets = "[hello_frame, s1_header]" and idx = 1
      and r = ?r3 and data = hello_frame]
  note ts = af_xdp_tx_addresses [where env = good_env and ?s0.0 = blank_state
      and s = sent_one and fd = 7 and packets = "[hello_frame, s1_header]" and idx = 1
      and r = ?r2 and data = hello_frame]
  from tb env have "\<exists>s1. init_af_xdp good_env blank_state = Inr (socket_fd good_env, s1)
      \<and> fill_posted s1 = map (\<lambda>k. of_nat (k * unat FRAME_SIZE)) [0..<NUM_FRAMES]
      \<and> tx_posted s1 = []"
    by blast
  then have a: "\<exists>s1. init_af_xdp good_env blank_state = Inr (7, s1)
         \<and> fill_posted s1 = map (\<lambda>k. of_nat (k * unat FRAME_SIZE)) [0..<NUM_FRAMES]
         \<and> tx_posted s1 = []"
    by (simp add: good_env_def)
  have batch: "xsk sent_one = Some 7 \<and> length [hello_frame, s1_header] \<le> NUM_FRAMES
      \<and> xsk_ring_prod__reserve (tx_ring sent_one) (of_nat (length [hello_frame, s1_header]))
          = (of_nat (length [hello_frame, s1_header]), Some 1, ?r3)
      \<and> (\<forall>k < length [hello_frame, s1_header].
            unat (tx_addr 1 k) + length ([hello_frame, s1_header] ! k) \<le> umem_size)"
    using sock len res2 all_fit by simp
  from tb batch obtain s' where
    run: "af_xdp_send_batch sent_one [hello_frame, s1_header]
        = Inr (int (length [hello_frame, s1_header]), s')"
    and written: "\<forall>k < length [hello_frame, s1_header].
            desc_addr (tx_descs s' (slot_index (1 + of_nat k))) = ucast ((1 + of_nat k) * FRAME_SIZE)"
    and dist: "distinct (map (\<lambda>k. desc_addr (tx_descs s' (slot_index (1 + of_nat k))))
            [0..<length [hello_frame, s1_header]])"
    and fill: "fill_posted s' = fill_posted sent_one"
    by blast
  from written [rule_format, of 0] have d1: "desc_addr (tx_descs s' (slot_index 1)) = 4096"
    by (simp add: FRAME_SIZE_def)
  from written [rule_format, of 1] have d2: "desc_addr (tx_descs s' (slot_index 2)) = 8192"
    by (simp add: FRAME_SIZE_def)
  from d1 d2 have dd: "distinct [desc_addr (tx_descs s' (slot_index 1)),
      desc_addr (tx_descs s' (slot_index 2))]"
    by simp
  from run d1 d2 dd fill
  have b: "\<exists>s'. af_xdp_send_batch sent_one [hello_frame, s1_header] = Inr (2, s')
         \<and> desc_addr (tx_descs s' (slot_index 1)) = 4096
         \<and> desc_addr (tx_descs s' (slot_index 2)) = 8192
         \<and> distinct [desc_addr (tx_descs s' (slot_index 1)),
               desc_addr (tx_descs s' (slot_index 2))]
         \<and> fill_posted s' = fill_posted sent_one"
    by auto
  have single: "xsk sent_one = Some 7
      \<and> xsk_ring_prod__reserve (tx_ring sent_one) 1 = (1, Some 1, ?r2)
      \<and> unat (tx_addr 1 0) + length hello_frame \<le> umem_size"
    using sock res1 fits by simp
  from ts single have "\<exists>s'. af_xdp_send sent_one hello_frame
        = Inr (sint (of_nat (length hello_frame) :: u32), s')
      \<and> desc_addr (tx_descs s' (slot_index 1)) = ucast (1 * FRAME_SIZE)
      \<and> fill_posted s' = fill_posted sent_one"
    by blast
  then have c: "\<exists>s'. af_xdp_send sent_one hello_frame = Inr (5, s')
         \<and> desc_addr (tx_descs s' (slot_index 1)) = 4096
         \<and> fill_posted s' = fill_posted sent_one"
    by (auto simp: hello_frame_def FRAME_SIZE_def)
  from env a sock len res2 fits before b res1 c show ?thesis by blast
qed

end
